theory Spec2Isabelle
  imports Complex_Main "HOL-Library.Word"
begin

section \<open>JavaScript values, as far as \<open>handleRequest\<close> inspects them\<close>

text \<open>
  The source is one asynchronous function, \<open>handleRequest\<close> (src/index.js), which uses
  the platform's \<open>Request\<close>, \<open>Response\<close>, \<open>fetch\<close>, \<open>ReadableStream\<close>,
  \<open>TextDecoder\<close> and \<open>TextEncoder\<close>. The function is embedded as it is written; the
  platform objects are embedded from the standards that define them (ECMAScript, Fetch,
  Streams, Encoding), each named where it is used.

  A JavaScript string is a sequence of UTF-16 code units, and \<open>s.length\<close> counts them.
  A \<open>Uint8Array\<close> is a sequence of bytes. Header values and method names are byte
  strings, which is what the HOL type \<open>string\<close> is.
\<close>

type_synonym byte = "8 word"
type_synonym code_unit = "16 word"
type_synonym jsstring = "code_unit list"

definition ascii :: "string \<Rightarrow> jsstring" where
  "ascii s = map of_char s"

text \<open>
  A Number is an IEEE double. Every double is NaN, an infinity or a rational; the model
  takes all rationals (a superset), identifies \<open>-0\<close> with \<open>0\<close> (the source never
  distinguishes them), and uses comparison and the test against zero only, which agree
  with the doubles' own.
\<close>

datatype jsnum = NaN | NegInfinity | Fin rat | Infinity

datatype jsval =
    JUndefined
  | JNull
  | JBool bool
  | JNum jsnum
  | JStr jsstring
  | JArr "jsval list"
  | JObj "(jsstring \<times> jsval) list"

text \<open>
  \<open>JObj kvs\<close> lists an object's own properties, in the object's order;
  \<open>JSON.parse\<close> creates plain objects whose keys are distinct, and a lookup that finds
  no own property continues at \<open>Object.prototype\<close>, which has no property \<open>prompt\<close>
  or \<open>length\<close> (it has the methods \<open>toString\<close> and \<open>valueOf\<close>). No value that
  \<open>JSON.parse\<close> returns is or holds a function.
\<close>

datatype js_error = TypeError | PlatformError nat

text \<open>ECMAScript ToBoolean, the test of \<open>if (!prompt)\<close>.\<close>

fun ToBoolean :: "jsval \<Rightarrow> bool" where
  "ToBoolean JUndefined = False"
| "ToBoolean JNull = False"
| "ToBoolean (JBool b) = b"
| "ToBoolean (JNum n) = (n \<noteq> NaN \<and> n \<noteq> Fin 0)"
| "ToBoolean (JStr s) = (s \<noteq> [])"
| "ToBoolean (JArr xs) = True"
| "ToBoolean (JObj kvs) = True"

text \<open>
  \<open>let { prompt } = body\<close>: destructuring throws a TypeError when \<open>body\<close> is
  \<open>null\<close> or \<open>undefined\<close>; on an object it reads the property; a number, a boolean,
  a string and an array have no property \<open>prompt\<close>.
\<close>

fun get_prompt :: "jsval \<Rightarrow> js_error + jsval" where
  "get_prompt JUndefined = Inl TypeError"
| "get_prompt JNull = Inl TypeError"
| "get_prompt (JObj kvs) =
     Inr (case map_of kvs (ascii ''prompt'') of None \<Rightarrow> JUndefined | Some v \<Rightarrow> v)"
| "get_prompt v = Inr JUndefined"

text \<open>
  \<open>prompt.length\<close>: the number of code units of a string, the number of elements of an
  array, the property \<open>length\<close> of an object if it has one, and \<open>undefined\<close> on a
  number or a boolean.
\<close>

fun get_length :: "jsval \<Rightarrow> js_error + jsval" where
  "get_length JUndefined = Inl TypeError"
| "get_length JNull = Inl TypeError"
| "get_length (JStr s) = Inr (JNum (Fin (of_nat (length s))))"
| "get_length (JArr xs) = Inr (JNum (Fin (of_nat (length xs))))"
| "get_length (JObj kvs) =
     Inr (case map_of kvs (ascii ''length'') of None \<Rightarrow> JUndefined | Some v \<Rightarrow> v)"
| "get_length v = Inr JUndefined"

subsection \<open>The platform: conversions the source leaves to the runtime, and \<open>fetch\<close>\<close>

record upstream =
  chunks :: "byte list list"
  ending :: "js_error option"

text \<open>
  The body of the upstream response as its reader delivers it: each \<open>reader.read()\<close>
  resolves with the next chunk, and after the last chunk with \<open>done\<close> (\<open>ending = None\<close>)
  or rejects (\<open>ending = Some e\<close>). The type holds the bodies that end or fail after
  finitely many chunks; on a longer body, the first calls of the relay loop are its calls
  on the chunks read so far.
\<close>

datatype fetch_outcome =
    FetchRejects js_error
  | FetchResponse nat "upstream option"

text \<open>
  \<open>fetch\<close> rejects (no connection) or resolves with a response: its status and its
  body, which is \<open>null\<close> for a response without one.
\<close>

record fetch_call =
  url :: string
  http_method :: string
  content_type :: string
  authorization :: string
  payload :: jsval

text \<open>
  \<open>payload\<close> is the body of the call: the JSON value of the text that
  \<open>JSON.stringify\<close> returned.
\<close>

record platform =
  StringToNumber :: "jsstring \<Rightarrow> jsnum"
  NumberToString_other :: "jsnum \<Rightarrow> jsstring"
  fetch :: "fetch_call \<Rightarrow> fetch_outcome"
  exception_page :: "js_error \<Rightarrow> jsstring"

text \<open>
  \<open>StringToNumber\<close> is ECMAScript's conversion of a string to a Number (it rounds to a
  double), and \<open>NumberToString_other\<close> is Number::toString away from the integers up to
  \<open>2^53\<close>, where it prints the shortest digits that round back: both are floating-point
  algorithms of the runtime, taken as they come. On the integers up to \<open>2^53\<close>
  Number::toString prints the decimal digits (code units from 48, the digit zero), which
  is all that the length of a string or of an array needs. \<open>exception_page\<close> is the
  text of the page the runtime sends for a handler that threw.
\<close>

fun digits :: "nat \<Rightarrow> jsstring" where
  "digits n =
     (if n < 10 then [of_nat (48 + n)]
      else digits (n div 10) @ [of_nat (48 + n mod 10)])"

declare digits.simps [simp del]

definition is_safe_integer :: "rat \<Rightarrow> bool" where
  "is_safe_integer q = (q = of_int \<lfloor>q\<rfloor> \<and> \<bar>q\<bar> \<le> 2 ^ 53)"

fun NumberToString :: "platform \<Rightarrow> jsnum \<Rightarrow> jsstring" where
  "NumberToString rt NaN = ascii ''NaN''"
| "NumberToString rt Infinity = ascii ''Infinity''"
| "NumberToString rt NegInfinity = ascii ''-Infinity''"
| "NumberToString rt (Fin q) =
     (if is_safe_integer q
      then (if q < 0 then ascii ''-'' else []) @ digits (nat \<bar>\<lfloor>q\<rfloor>\<bar>)
      else NumberToString_other rt (Fin q))"

fun join :: "jsstring \<Rightarrow> jsstring list \<Rightarrow> jsstring" where
  "join sep [] = []"
| "join sep [s] = s"
| "join sep (s # t # ss) = s @ sep @ join sep (t # ss)"

text \<open>
  ECMAScript ToString, as a template literal applies it, and ToNumber, as \<open>>\<close> applies
  it to an operand. A primitive value converts directly. An array or an object is first
  converted to a primitive (ToPrimitive), which calls its \<open>valueOf\<close> and \<open>toString\<close>:
  \<open>Object.prototype.valueOf\<close> returns the object itself, which is no primitive, so the
  result is that of \<open>toString\<close>. An array prints its elements joined by commas
  (\<open>null\<close> and \<open>undefined\<close> as nothing, the others by ToString); a plain object prints
  \<open>[object Object]\<close>. A parsed object can have an own property \<open>toString\<close>, which
  hides the inherited method and is never a function: ToPrimitive then finds nothing to
  call and throws a TypeError (an own \<open>valueOf\<close> is skipped for the inherited one and
  changes nothing).
\<close>

fun ToString :: "platform \<Rightarrow> jsval \<Rightarrow> js_error + jsstring"
  and ToString_elements :: "platform \<Rightarrow> jsval list \<Rightarrow> js_error + jsstring list" where
  "ToString rt JUndefined = Inr (ascii ''undefined'')"
| "ToString rt JNull = Inr (ascii ''null'')"
| "ToString rt (JBool b) = Inr (if b then ascii ''true'' else ascii ''false'')"
| "ToString rt (JNum n) = Inr (NumberToString rt n)"
| "ToString rt (JStr s) = Inr s"
| "ToString rt (JArr xs) =
     (case ToString_elements rt xs of
        Inl e \<Rightarrow> Inl e
      | Inr ss \<Rightarrow> Inr (join (ascii '','') ss))"
| "ToString rt (JObj kvs) =
     (if map_of kvs (ascii ''toString'') = None then Inr (ascii ''[object Object]'')
      else Inl TypeError)"
| "ToString_elements rt [] = Inr []"
| "ToString_elements rt (x # xs) =
     (case (if x = JUndefined \<or> x = JNull then Inr [] else ToString rt x) of
        Inl e \<Rightarrow> Inl e
      | Inr s \<Rightarrow>
          (case ToString_elements rt xs of
             Inl e \<Rightarrow> Inl e
           | Inr ss \<Rightarrow> Inr (s # ss)))"

fun ToNumber :: "platform \<Rightarrow> jsval \<Rightarrow> js_error + jsnum" where
  "ToNumber rt JUndefined = Inr NaN"
| "ToNumber rt JNull = Inr (Fin 0)"
| "ToNumber rt (JBool b) = Inr (Fin (if b then 1 else 0))"
| "ToNumber rt (JNum n) = Inr n"
| "ToNumber rt (JStr s) = Inr (StringToNumber rt s)"
| "ToNumber rt (JArr xs) =
     (case ToString rt (JArr xs) of
        Inl e \<Rightarrow> Inl e
      | Inr s \<Rightarrow> Inr (StringToNumber rt s))"
| "ToNumber rt (JObj kvs) =
     (case ToString rt (JObj kvs) of
        Inl e \<Rightarrow> Inl e
      | Inr s \<Rightarrow> Inr (StringToNumber rt s))"

text \<open>
  The JSON value of the text \<open>JSON.stringify\<close> writes for a value: a number that is not
  finite is written \<open>null\<close>, as is \<open>undefined\<close> in an array; a property whose value
  is \<open>undefined\<close> is left out; everything else is written as it is (a property
  \<open>toJSON\<close> would be called only if it were a function).
\<close>

fun JSON_stringify :: "jsval \<Rightarrow> jsval"
  and JSON_stringify_elements :: "jsval list \<Rightarrow> jsval list"
  and JSON_stringify_properties :: "(jsstring \<times> jsval) list \<Rightarrow> (jsstring \<times> jsval) list" where
  "JSON_stringify JUndefined = JUndefined"
| "JSON_stringify JNull = JNull"
| "JSON_stringify (JBool b) = JBool b"
| "JSON_stringify (JNum n) = (case n of Fin q \<Rightarrow> JNum (Fin q) | _ \<Rightarrow> JNull)"
| "JSON_stringify (JStr s) = JStr s"
| "JSON_stringify (JArr xs) = JArr (JSON_stringify_elements xs)"
| "JSON_stringify (JObj kvs) = JObj (JSON_stringify_properties kvs)"
| "JSON_stringify_elements [] = []"
| "JSON_stringify_elements (x # xs) =
     (if x = JUndefined then JNull else JSON_stringify x) # JSON_stringify_elements xs"
| "JSON_stringify_properties [] = []"
| "JSON_stringify_properties ((k, v) # kvs) =
     (if v = JUndefined then JSON_stringify_properties kvs
      else (k, JSON_stringify v) # JSON_stringify_properties kvs)"

text \<open>Number::lessThan; a comparison with NaN is false.\<close>

fun js_less :: "jsnum \<Rightarrow> jsnum \<Rightarrow> bool" where
  "js_less NaN y = False"
| "js_less x NaN = False"
| "js_less Infinity y = False"
| "js_less x NegInfinity = False"
| "js_less NegInfinity y = True"
| "js_less x Infinity = True"
| "js_less (Fin a) (Fin b) = (a < b)"

section \<open>The platform's UTF-8 decoder and encoder\<close>

text \<open>
  \<open>new TextDecoder()\<close> is the UTF-8 decoder of the Encoding standard, in replacement
  mode (\<open>fatal\<close> is false: a malformed sequence decodes to U+FFFD and nothing is ever
  thrown) and with \<open>ignoreBOM\<close> false (a byte order mark at the start of the stream is
  dropped). Its state is the standard's: the code point under construction, the bytes
  seen and needed, the bounds of the next continuation byte, and the BOM flag.
\<close>

record utf8_decoder =
  code_point :: nat
  bytes_seen :: nat
  bytes_needed :: nat
  lower_boundary :: nat
  upper_boundary :: nat
  BOM_seen :: bool

definition new_TextDecoder :: utf8_decoder where
  "new_TextDecoder =
     \<lparr>code_point = 0, bytes_seen = 0, bytes_needed = 0,
      lower_boundary = 0x80, upper_boundary = 0xBF, BOM_seen = False\<rparr>"

text \<open>
  The handler of the standard on one byte, in two parts: \<open>utf8_lead\<close> is its step for
  \<open>bytes needed = 0\<close>; \<open>utf8_handler\<close> adds the steps for a continuation byte, where a
  byte out of bounds yields U+FFFD and is then read again as a lead byte. The standard's
  \<open>byte & 0x1F\<close> and \<open>(code point << 6) | (byte & 0x3F)\<close> are written with \<open>mod\<close>
  and \<open>*\<close>. Both return the code points emitted and the new state.
\<close>

definition utf8_lead :: "utf8_decoder \<Rightarrow> nat \<Rightarrow> nat list \<times> utf8_decoder" where
  "utf8_lead d b =
     (if b \<le> 0x7F then ([b], d)
      else if 0xC2 \<le> b \<and> b \<le> 0xDF then
        ([], d\<lparr>bytes_needed := 1, code_point := b mod 32\<rparr>)
      else if 0xE0 \<le> b \<and> b \<le> 0xEF then
        ([], d\<lparr>lower_boundary := (if b = 0xE0 then 0xA0 else lower_boundary d),
               upper_boundary := (if b = 0xED then 0x9F else upper_boundary d),
               bytes_needed := 2, code_point := b mod 16\<rparr>)
      else if 0xF0 \<le> b \<and> b \<le> 0xF4 then
        ([], d\<lparr>lower_boundary := (if b = 0xF0 then 0x90 else lower_boundary d),
               upper_boundary := (if b = 0xF4 then 0x8F else upper_boundary d),
               bytes_needed := 3, code_point := b mod 8\<rparr>)
      else ([0xFFFD], d))"

definition utf8_handler :: "utf8_decoder \<Rightarrow> nat \<Rightarrow> nat list \<times> utf8_decoder" where
  "utf8_handler d b =
     (if bytes_needed d = 0 then utf8_lead d b
      else if b < lower_boundary d \<or> upper_boundary d < b then
        (let d0 = d\<lparr>code_point := 0, bytes_needed := 0, bytes_seen := 0,
                      lower_boundary := 0x80, upper_boundary := 0xBF\<rparr>;
             (out, d') = utf8_lead d0 b
         in (0xFFFD # out, d'))
      else
        (let d1 = d\<lparr>lower_boundary := 0x80, upper_boundary := 0xBF,
                      code_point := code_point d * 64 + b mod 64,
                      bytes_seen := bytes_seen d + 1\<rparr>
         in if bytes_seen d1 \<noteq> bytes_needed d1 then ([], d1)
            else ([code_point d1],
                  d1\<lparr>code_point := 0, bytes_needed := 0, bytes_seen := 0\<rparr>)))"

fun utf8_run :: "utf8_decoder \<Rightarrow> nat list \<Rightarrow> nat list \<times> utf8_decoder" where
  "utf8_run d [] = ([], d)"
| "utf8_run d (b # bs) =
     (let (out, d') = utf8_handler d b; (outs, d'') = utf8_run d' bs
      in (out @ outs, d''))"

text \<open>
  Serialising the output: the first code point the decoder ever emits is dropped when it
  is U+FEFF, and a code point from U+10000 on becomes a surrogate pair, two code units.
\<close>

definition strip_BOM :: "utf8_decoder \<Rightarrow> nat list \<Rightarrow> nat list \<times> utf8_decoder" where
  "strip_BOM d cps =
     (if BOM_seen d \<or> cps = [] then (cps, d)
      else ((if hd cps = 0xFEFF then tl cps else cps), d\<lparr>BOM_seen := True\<rparr>))"

definition utf16_units :: "nat \<Rightarrow> jsstring" where
  "utf16_units cp =
     (if cp < 0x10000 then [of_nat cp]
      else [of_nat (0xD800 + (cp - 0x10000) div 0x400),
            of_nat (0xDC00 + (cp - 0x10000) mod 0x400)])"

text \<open>\<open>textDecoder.decode(value, { stream: true })\<close>: the text, and the decoder after it.\<close>

definition TextDecoder_decode :: "utf8_decoder \<Rightarrow> byte list \<Rightarrow> jsstring \<times> utf8_decoder" where
  "TextDecoder_decode d v =
     (let (cps, d1) = utf8_run d (map unat v);
          (cps', d2) = strip_BOM d1 cps
      in (concat (map utf16_units cps'), d2))"

text \<open>
  \<open>textEncoder.encode(s)\<close>: the string is first read as scalar values (a surrogate
  pair is one, a surrogate on its own is replaced by U+FFFD), each then encoded in UTF-8.
\<close>

definition is_high_surrogate :: "code_unit \<Rightarrow> bool" where
  "is_high_surrogate c = (0xD800 \<le> unat c \<and> unat c \<le> 0xDBFF)"

definition is_low_surrogate :: "code_unit \<Rightarrow> bool" where
  "is_low_surrogate c = (0xDC00 \<le> unat c \<and> unat c \<le> 0xDFFF)"

fun scalar_values :: "jsstring \<Rightarrow> nat list" where
  "scalar_values [] = []"
| "scalar_values [c] =
     [if is_high_surrogate c \<or> is_low_surrogate c then 0xFFFD else unat c]"
| "scalar_values (c # c' # cs) =
     (if is_high_surrogate c \<and> is_low_surrogate c'
      then (0x10000 + (unat c - 0xD800) * 0x400 + (unat c' - 0xDC00)) # scalar_values cs
      else (if is_high_surrogate c \<or> is_low_surrogate c then 0xFFFD else unat c)
           # scalar_values (c' # cs))"

definition utf8_bytes :: "nat \<Rightarrow> byte list" where
  "utf8_bytes cp =
     (if cp < 0x80 then [of_nat cp]
      else if cp < 0x800 then [of_nat (0xC0 + cp div 0x40), of_nat (0x80 + cp mod 0x40)]
      else if cp < 0x10000 then
        [of_nat (0xE0 + cp div 0x1000), of_nat (0x80 + cp div 0x40 mod 0x40),
         of_nat (0x80 + cp mod 0x40)]
      else
        [of_nat (0xF0 + cp div 0x40000), of_nat (0x80 + cp div 0x1000 mod 0x40),
         of_nat (0x80 + cp div 0x40 mod 0x40), of_nat (0x80 + cp mod 0x40)])"

definition TextEncoder_encode :: "jsstring \<Rightarrow> byte list" where
  "TextEncoder_encode s = concat (map utf8_bytes (scalar_values s))"

section \<open>Streams and responses\<close>

text \<open>
  A \<open>ReadableStream\<close> as its controller sees it (Streams standard): \<open>enqueue\<close> and
  \<open>close\<close> throw a TypeError unless the stream is readable and not yet closed,
  \<open>error\<close> does nothing unless it is readable. \<open>enqueued\<close> keeps, in order, every
  chunk handed to the controller: what a consumer of the stream reads before it sees the
  end (\<open>Closed\<close>). On \<open>error\<close> the standard discards the chunks no consumer has
  read yet; the record keeps them, as the history of what was written.
\<close>

datatype stream_state = Readable | Closed | Errored js_error

record readable_stream =
  stream_state :: stream_state
  enqueued :: "byte list list"

definition new_ReadableStream :: readable_stream where
  "new_ReadableStream = \<lparr>stream_state = Readable, enqueued = []\<rparr>"

definition controller_enqueue :: "byte list \<Rightarrow> readable_stream \<Rightarrow> js_error + readable_stream" where
  "controller_enqueue v rs =
     (if stream_state rs = Readable then Inr (rs\<lparr>enqueued := enqueued rs @ [v]\<rparr>)
      else Inl TypeError)"

definition controller_close :: "readable_stream \<Rightarrow> js_error + readable_stream" where
  "controller_close rs =
     (if stream_state rs = Readable then Inr (rs\<lparr>stream_state := Closed\<rparr>)
      else Inl TypeError)"

definition controller_error :: "js_error \<Rightarrow> readable_stream \<Rightarrow> readable_stream" where
  "controller_error e rs =
     (if stream_state rs = Readable then rs\<lparr>stream_state := Errored e\<rparr> else rs)"

text \<open>
  What \<open>new Response(body, init)\<close> is given as its body. \<open>null\<close> and \<open>undefined\<close>
  both make a response without a body.
\<close>

datatype body_init =
    BodyUndefined
  | BodyNull
  | BodyText jsstring
  | BodyStream readable_stream

record response =
  response_body :: body_init
  status :: nat
  headers :: "(string \<times> string) list"

text \<open>
  The bytes a client reads from a response, and how its body ends. For a stream these are
  the chunks written to it (of an errored stream a client may have read fewer).
\<close>

datatype body_end = Complete | Aborted js_error | Pending

fun client_body :: "response \<Rightarrow> byte list" where
  "client_body r =
     (case response_body r of
        BodyUndefined \<Rightarrow> []
      | BodyNull \<Rightarrow> []
      | BodyText s \<Rightarrow> TextEncoder_encode s
      | BodyStream rs \<Rightarrow> concat (enqueued rs))"

fun client_end :: "response \<Rightarrow> body_end" where
  "client_end r =
     (case response_body r of
        BodyStream rs \<Rightarrow>
          (case stream_state rs of
             Readable \<Rightarrow> Pending | Closed \<Rightarrow> Complete | Errored e \<Rightarrow> Aborted e)
      | _ \<Rightarrow> Complete)"

text \<open>
  \<open>const { readable } = new ReadableStream({ ... })\<close> reads the property \<open>readable\<close>
  of the new stream. The Streams standard gives a \<open>ReadableStream\<close> the attribute
  \<open>locked\<close> and the methods \<open>cancel\<close>, \<open>getReader\<close>, \<open>pipeThrough\<close>, \<open>pipeTo\<close>,
  \<open>tee\<close> and \<open>values\<close>; \<open>readable\<close> and \<open>writable\<close> are attributes of a
  \<open>TransformStream\<close>, not of a \<open>ReadableStream\<close>. The lookup therefore yields
  \<open>undefined\<close>, whatever the stream is.
\<close>

definition get_readable :: "readable_stream \<Rightarrow> body_init" where
  "get_readable rs = BodyUndefined"

section \<open>The source: configuration, the relay loop \<open>push\<close>, and \<open>handleRequest\<close>\<close>

record config =
  ALLOWED_ORIGIN :: string
  MAX_PROMPT_LENGTH :: nat
  MAX_RESPONSE_LENGTH :: nat
  OPENAI_API_URL :: string
  OPENAI_API_KEY :: string

text \<open>Lines 2 to 11 of the source; the key is bound by the deployment.\<close>

definition source_config :: "string \<Rightarrow> config" where
  "source_config api_key =
     \<lparr>ALLOWED_ORIGIN = ''https://koomen.dev'',
      MAX_PROMPT_LENGTH = 1000,
      MAX_RESPONSE_LENGTH = 5000,
      OPENAI_API_URL = ''https://api.openai.com/v1/responses'',
      OPENAI_API_KEY = api_key\<rparr>"

text \<open>
  The variables \<open>start\<close> declares and \<open>push\<close> closes over: the decoder, the counter
  \<open>totalLength\<close>, the controller's stream, and how many times \<open>reader.read()\<close> has
  been called. (The encoder has no state.)
\<close>

record relay =
  textDecoder :: utf8_decoder
  totalLength :: nat
  sink :: readable_stream
  reads :: nat

text \<open>
  One call of \<open>push\<close> whose read resolves with the chunk \<open>v\<close> (lines 97 to 109): the
  state after it, and whether it calls \<open>push\<close> again. Anything thrown inside goes to
  \<open>controller.error\<close> (lines 110 to 112). \<open>MAX_RESPONSE_LENGTH - totalLength\<close> is
  never negative here, and \<open>substring(0, n)\<close> is \<open>take n\<close>.
\<close>

definition push_chunk :: "config \<Rightarrow> relay \<Rightarrow> byte list \<Rightarrow> relay \<times> bool" where
  "push_chunk cfg s v =
     (let s1 = s\<lparr>reads := reads s + 1\<rparr>;
          (chunkText, d) = TextDecoder_decode (textDecoder s1) v;
          s2 = s1\<lparr>textDecoder := d\<rparr>
      in if totalLength s2 + length chunkText > MAX_RESPONSE_LENGTH cfg then
           (let allowed = MAX_RESPONSE_LENGTH cfg - totalLength s2;
                trimmed = take allowed chunkText
            in case controller_enqueue (TextEncoder_encode trimmed) (sink s2) of
                 Inl e \<Rightarrow> (s2\<lparr>sink := controller_error e (sink s2)\<rparr>, False)
               | Inr rs \<Rightarrow>
                   (case controller_close rs of
                      Inl e \<Rightarrow> (s2\<lparr>sink := controller_error e rs\<rparr>, False)
                    | Inr rs' \<Rightarrow> (s2\<lparr>sink := rs'\<rparr>, False)))
         else
           (let s3 = s2\<lparr>totalLength := totalLength s2 + length chunkText\<rparr>
            in case controller_enqueue v (sink s3) of
                 Inl e \<Rightarrow> (s3\<lparr>sink := controller_error e (sink s3)\<rparr>, False)
               | Inr rs \<Rightarrow> (s3\<lparr>sink := rs\<rparr>, True)))"

text \<open>
  The call of \<open>push\<close> whose read finds the upstream at its end: \<open>done\<close> closes the
  stream (lines 93 to 96), a rejected read goes to \<open>controller.error\<close>.
\<close>

definition push_end :: "relay \<Rightarrow> js_error option \<Rightarrow> relay" where
  "push_end s e_opt =
     (let s1 = s\<lparr>reads := reads s + 1\<rparr>
      in case e_opt of
           Some e \<Rightarrow> s1\<lparr>sink := controller_error e (sink s1)\<rparr>
         | None \<Rightarrow>
             (case controller_close (sink s1) of
                Inl e \<Rightarrow> s1\<lparr>sink := controller_error e (sink s1)\<rparr>
              | Inr rs \<Rightarrow> s1\<lparr>sink := rs\<rparr>))"

text \<open>
  \<open>push\<close> (lines 90 to 113), run until no call of it is left: the state it leaves.
  \<open>push_trace\<close> lists the state after each call instead.
\<close>

fun push :: "config \<Rightarrow> relay \<Rightarrow> byte list list \<Rightarrow> js_error option \<Rightarrow> relay" where
  "push cfg s [] e_opt = push_end s e_opt"
| "push cfg s (v # vs) e_opt =
     (case push_chunk cfg s v of
        (s', True) \<Rightarrow> push cfg s' vs e_opt
      | (s', False) \<Rightarrow> s')"

fun push_trace :: "config \<Rightarrow> relay \<Rightarrow> byte list list \<Rightarrow> js_error option \<Rightarrow> relay list" where
  "push_trace cfg s [] e_opt = [push_end s e_opt]"
| "push_trace cfg s (v # vs) e_opt =
     (case push_chunk cfg s v of
        (s', True) \<Rightarrow> s' # push_trace cfg s' vs e_opt
      | (s', False) \<Rightarrow> [s'])"

text \<open>
  \<open>start(controller)\<close> (lines 84 to 115). \<open>openaiResponse.body.getReader()\<close> throws a
  TypeError when the upstream response has no body; \<open>start\<close> is asynchronous, so the
  stream is then errored with it, and the variables declared after that line are never
  created (their initial values stand in for them).
\<close>

definition initial_relay :: relay where
  "initial_relay =
     \<lparr>textDecoder = new_TextDecoder, totalLength = 0, sink = new_ReadableStream, reads = 0\<rparr>"

definition start :: "config \<Rightarrow> upstream option \<Rightarrow> relay" where
  "start cfg b =
     (case b of
        None \<Rightarrow> initial_relay\<lparr>sink := controller_error TypeError new_ReadableStream\<rparr>
      | Some up \<Rightarrow> push cfg initial_relay (chunks up) (ending up))"

text \<open>
  The request as \<open>handleRequest\<close> reads it: \<open>request.headers.get("Origin")\<close> (\<open>None\<close>
  is \<open>null\<close>, the header is absent), \<open>request.method\<close>, and what
  \<open>await request.json()\<close> gives: \<open>None\<close> when it rejects, else the parsed value.
\<close>

record request =
  req_origin :: "string option"
  req_method :: string
  req_json :: "jsval option"

text \<open>
  What a call of \<open>handleRequest\<close> does: it returns a response or throws; it may have
  read the request's body; the calls of \<open>fetch\<close> it made; and, when it constructed the
  stream, the state \<open>start\<close> and \<open>push\<close> leave behind.
\<close>

record result =
  outcome :: "js_error + response"
  body_read :: bool
  fetches :: "fetch_call list"
  session :: "relay option"

definition new_Response :: "body_init \<Rightarrow> nat \<Rightarrow> (string \<times> string) list \<Rightarrow> response" where
  "new_Response b st hs = \<lparr>response_body = b, status = st, headers = hs\<rparr>"

text \<open>A response constructed without a status has status 200.\<close>

definition openai_call :: "config \<Rightarrow> jsval \<Rightarrow> fetch_call" where
  "openai_call cfg prompt =
     \<lparr>url = OPENAI_API_URL cfg,
      http_method = ''POST'',
      content_type = ''application/json'',
      authorization = ''Bearer '' @ OPENAI_API_KEY cfg,
      payload =
        JSON_stringify (JObj [(ascii ''prompt'', prompt), (ascii ''stream'', JBool True)])\<rparr>"

text \<open>\<open>openaiResponse.ok\<close>: the status is in the range 200 to 299.\<close>

definition response_ok :: "nat \<Rightarrow> bool" where
  "response_ok st = (200 \<le> st \<and> st \<le> 299)"

definition handleRequest :: "platform \<Rightarrow> config \<Rightarrow> request \<Rightarrow> result" where
  "handleRequest rt cfg request =
     (if req_origin request \<noteq> Some (ALLOWED_ORIGIN cfg) then
        \<lparr>outcome = Inr (new_Response (BodyText (ascii ''Forbidden'')) 403 []),
         body_read = False, fetches = [], session = None\<rparr>
      else if req_method request = ''OPTIONS'' then
        \<lparr>outcome = Inr (new_Response BodyNull 200
           [(''Access-Control-Allow-Origin'', ALLOWED_ORIGIN cfg),
            (''Access-Control-Allow-Methods'', ''POST, OPTIONS''),
            (''Access-Control-Allow-Headers'', ''Content-Type, Authorization'')]),
         body_read = False, fetches = [], session = None\<rparr>
      else if req_method request \<noteq> ''POST'' then
        \<lparr>outcome = Inr (new_Response (BodyText (ascii ''Method Not Allowed'')) 405 []),
         body_read = False, fetches = [], session = None\<rparr>
      else
        (case req_json request of
           None \<Rightarrow>
             \<lparr>outcome = Inr (new_Response (BodyText (ascii ''Bad Request: Invalid JSON'')) 400 []),
              body_read = True, fetches = [], session = None\<rparr>
         | Some body \<Rightarrow>
             (case get_prompt body of
                Inl e \<Rightarrow> \<lparr>outcome = Inl e, body_read = True, fetches = [], session = None\<rparr>
              | Inr prompt \<Rightarrow>
                  if \<not> ToBoolean prompt then
                    \<lparr>outcome = Inr (new_Response
                       (BodyText (ascii ''Bad Request: Missing prompt'')) 400 []),
                     body_read = True, fetches = [], session = None\<rparr>
                  else
                    (case get_length prompt of
                       Inl e \<Rightarrow>
                         \<lparr>outcome = Inl e, body_read = True, fetches = [], session = None\<rparr>
                     | Inr len \<Rightarrow>
                     (case ToNumber rt len of
                        Inl e \<Rightarrow>
                          \<lparr>outcome = Inl e, body_read = True, fetches = [], session = None\<rparr>
                      | Inr n \<Rightarrow>
                         if js_less (Fin (of_nat (MAX_PROMPT_LENGTH cfg))) n then
                           (case ToString rt len of
                              Inl e \<Rightarrow>
                                \<lparr>outcome = Inl e, body_read = True, fetches = [],
                                 session = None\<rparr>
                            | Inr actual \<Rightarrow>
                                \<lparr>outcome = Inr (new_Response
                                   (BodyText
                                     (ascii ''Bad Request: Max prompt length exceeded ('' @
                                      actual @ ascii ''>'' @
                                      NumberToString rt (Fin (of_nat (MAX_PROMPT_LENGTH cfg)))))
                                   400 []),
                                 body_read = True, fetches = [], session = None\<rparr>)
                         else
                           (let call = openai_call cfg prompt
                            in case fetch rt call of
                                 FetchRejects e \<Rightarrow>
                                   \<lparr>outcome = Inl e, body_read = True, fetches = [call],
                                    session = None\<rparr>
                               | FetchResponse st b \<Rightarrow>
                                   if \<not> response_ok st then
                                     \<lparr>outcome = Inr (new_Response
                                        (BodyText (ascii ''Error from OpenAI API'')) 500 []),
                                      body_read = True, fetches = [call], session = None\<rparr>
                                   else
                                     (let s = start cfg b;
                                          readable = get_readable (sink s)
                                      in \<lparr>outcome = Inr (new_Response readable 200
                                            [(''Content-Type'', ''application/json''),
                                             (''Access-Control-Allow-Origin'',
                                              ALLOWED_ORIGIN cfg)]),
                                          body_read = True, fetches = [call],
                                          session = Some s\<rparr>)))))))"


section \<open>Vocabulary of the properties, and example inputs\<close>

text \<open>
  The text each chunk decodes to when one decoder reads the chunks in turn, and the
  decoder after them: what the relay loop computes chunk by chunk.
\<close>

fun decode_all :: "utf8_decoder \<Rightarrow> byte list list \<Rightarrow> jsstring list" where
  "decode_all d [] = []"
| "decode_all d (v # vs) =
     fst (TextDecoder_decode d v) # decode_all (snd (TextDecoder_decode d v)) vs"

fun decoder_after :: "utf8_decoder \<Rightarrow> byte list list \<Rightarrow> utf8_decoder" where
  "decoder_after d [] = d"
| "decoder_after d (v # vs) = decoder_after (snd (TextDecoder_decode d v)) vs"

text \<open>
  The six checks of the gate, all passed: the origin is the allowed one, the method is
  POST, the body parses, the prompt is there and truthy, and its length converts to a
  number that is not above the maximum.
\<close>

definition passes_gate :: "platform \<Rightarrow> config \<Rightarrow> request \<Rightarrow> bool" where
  "passes_gate rt cfg request =
     (req_origin request = Some (ALLOWED_ORIGIN cfg) \<and> req_method request = ''POST'' \<and>
      (case req_json request of
         None \<Rightarrow> False
       | Some body \<Rightarrow>
           (case get_prompt body of
              Inl e \<Rightarrow> False
            | Inr prompt \<Rightarrow>
                ToBoolean prompt \<and>
                (case get_length prompt of
                   Inl e \<Rightarrow> False
                 | Inr len \<Rightarrow>
                     (case ToNumber rt len of
                        Inl e \<Rightarrow> False
                      | Inr n \<Rightarrow> \<not> js_less (Fin (of_nat (MAX_PROMPT_LENGTH cfg))) n)))))"


text \<open>A decoder state, field by field, with the BOM flag first.\<close>

definition pending :: "bool \<Rightarrow> nat \<Rightarrow> nat \<Rightarrow> nat \<Rightarrow> nat \<Rightarrow> nat \<Rightarrow> utf8_decoder" where
  "pending b c seen needed lo hi =
     \<lparr>code_point = c, bytes_seen = seen, bytes_needed = needed,
      lower_boundary = lo, upper_boundary = hi, BOM_seen = b\<rparr>"

text \<open>Example inputs: ASCII text as bytes, a platform, and a POST from the allowed origin.\<close>

definition bytes_of :: "string \<Rightarrow> byte list" where
  "bytes_of s = map of_char s"

definition example_platform :: "fetch_outcome \<Rightarrow> platform" where
  "example_platform out =
     \<lparr>StringToNumber = (\<lambda>s. NaN), NumberToString_other = (\<lambda>n. []), fetch = (\<lambda>c. out),
      exception_page = (\<lambda>e. ascii ''Worker threw exception'')\<rparr>"

definition post_request :: "jsval \<Rightarrow> request" where
  "post_request v =
     \<lparr>req_origin = Some ''https://koomen.dev'', req_method = ''POST'', req_json = Some v\<rparr>"

definition prompt_body :: "jsval \<Rightarrow> jsval" where
  "prompt_body p = JObj [(ascii ''prompt'', p)]"

text \<open>
  The prompt \<open>{"length": {"toString": 0}}\<close>: its \<open>length\<close> is an object that
  cannot be converted to a primitive.
\<close>

definition unprintable_length :: jsval where
  "unprintable_length =
     JObj [(ascii ''length'', JObj [(ascii ''toString'', JNum (Fin 0))])]"

section \<open>Properties of the request gate\<close>

lemma is_safe_integer_of_nat: "n \<le> 2 ^ 53 \<Longrightarrow> is_safe_integer (of_nat n)"
proof -
  assume "n \<le> 2 ^ 53"
  then have "(of_nat n :: rat) \<le> of_nat (2 ^ 53)" by (simp only: of_nat_le_iff)
  then show ?thesis by (simp add: is_safe_integer_def)
qed

lemma NumberToString_of_nat:
  "n \<le> 2 ^ 53 \<Longrightarrow> NumberToString rt (Fin (of_nat n)) = digits n"
  by (simp add: is_safe_integer_of_nat)

text \<open>
  C3. A request whose \<open>Origin\<close> header is absent or differs from the allowed origin is
  answered with status 403 (and the text \<open>Forbidden\<close>), whatever its method and body:
  the body is not read, \<open>fetch\<close> is not called and no stream is made.
\<close>

theorem C3_origin_mismatch_forbidden:
  "req_origin request \<noteq> Some (ALLOWED_ORIGIN cfg) \<Longrightarrow>
   handleRequest rt cfg request =
     \<lparr>outcome = Inr (new_Response (BodyText (ascii ''Forbidden'')) 403 []),
      body_read = False, fetches = [], session = None\<rparr>"
  by (simp add: handleRequest_def)

text \<open>
  The theorem at a preflight request without the header, and at a POST whose origin
  differs from the allowed one in a final slash.
\<close>

theorem C3_witness:
  "handleRequest (example_platform (FetchRejects TypeError)) (source_config ''key'')
     \<lparr>req_origin = None, req_method = ''OPTIONS'', req_json = None\<rparr> =
     \<lparr>outcome = Inr (new_Response (BodyText (ascii ''Forbidden'')) 403 []),
      body_read = False, fetches = [], session = None\<rparr>
   \<and> handleRequest (example_platform (FetchRejects TypeError)) (source_config ''key'')
     ((post_request (prompt_body (JStr (ascii ''hello''))))
        \<lparr>req_origin := Some ''https://koomen.dev/''\<rparr>) =
     \<lparr>outcome = Inr (new_Response (BodyText (ascii ''Forbidden'')) 403 []),
      body_read = False, fetches = [], session = None\<rparr>"
  using
    C3_origin_mismatch_forbidden [of "\<lparr>req_origin = None, req_method = ''OPTIONS'', req_json = None\<rparr>"
       "source_config ''key''" "example_platform (FetchRejects TypeError)"]
    C3_origin_mismatch_forbidden [of "(post_request (prompt_body (JStr (ascii ''hello''))))
        \<lparr>req_origin := Some ''https://koomen.dev/''\<rparr>"
       "source_config ''key''" "example_platform (FetchRejects TypeError)"]
  by (simp add: source_config_def post_request_def)

text \<open>
  C4. A POST from the allowed origin whose \<open>prompt\<close> is a string of length \<open>L\<close> above
  the maximum \<open>M\<close> is answered with status 400 and the text
  \<open>Bad Request: Max prompt length exceeded (L>M\<close>, both numbers in decimal and no
  closing parenthesis; \<open>fetch\<close> is not called. (A JavaScript string has fewer than
  \<open>2^53\<close> code units.)
\<close>

theorem C4_prompt_too_long:
  assumes "req_origin request = Some (ALLOWED_ORIGIN cfg)"
    and "req_method request = ''POST''"
    and "req_json request = Some (JObj kvs)"
    and "map_of kvs (ascii ''prompt'') = Some (JStr p)"
    and "MAX_PROMPT_LENGTH cfg < length p"
    and "length p < 2 ^ 53"
  shows "handleRequest rt cfg request =
     \<lparr>outcome = Inr (new_Response
        (BodyText (ascii ''Bad Request: Max prompt length exceeded ('' @
           digits (length p) @ ascii ''>'' @ digits (MAX_PROMPT_LENGTH cfg))) 400 []),
      body_read = True, fetches = [], session = None\<rparr>"
proof -
  from assms(5) have ne: "p \<noteq> []" by auto
  have m: "MAX_PROMPT_LENGTH cfg \<le> 2 ^ 53" and l: "length p \<le> 2 ^ 53"
    using assms(5,6) by simp_all
  show ?thesis
    using assms(1-5) ne
    by (simp add: handleRequest_def NumberToString_of_nat [OF m] NumberToString_of_nat [OF l]
        del: NumberToString.simps)
qed

text \<open>
  The theorem at the maximum 10 and the prompt \<open>hello world!\<close>, 12 code units: the
  text of the response is exactly \<open>Bad Request: Max prompt length exceeded (12>10\<close>.
\<close>

theorem C4_witness:
  "handleRequest (example_platform (FetchRejects TypeError))
     ((source_config ''key'')\<lparr>MAX_PROMPT_LENGTH := 10\<rparr>)
     (post_request (prompt_body (JStr (ascii ''hello world!'')))) =
     \<lparr>outcome = Inr (new_Response
        (BodyText (ascii ''Bad Request: Max prompt length exceeded (12>10'')) 400 []),
      body_read = True, fetches = [], session = None\<rparr>"
  using C4_prompt_too_long [of "post_request (prompt_body (JStr (ascii ''hello world!'')))"
      "(source_config ''key'')\<lparr>MAX_PROMPT_LENGTH := 10\<rparr>"
      "[(ascii ''prompt'', JStr (ascii ''hello world!''))]" "ascii ''hello world!''"
      "example_platform (FetchRejects TypeError)"]
  by (simp add: source_config_def post_request_def prompt_body_def ascii_def digits.simps)

text \<open>
  A length that converts to a number also converts to a string, and a value without
  \<open>undefined\<close> and without a number that is not finite is written by
  \<open>JSON.stringify\<close> as it is.
\<close>

lemma ToNumber_ToString:
  "ToNumber rt v = Inr n \<Longrightarrow> \<exists>s. ToString rt v = Inr s"
  by (cases v) (auto split: sum.splits if_splits)


text \<open>
  C6. The gate's checks come in the order origin, preflight, method, JSON, prompt
  presence, prompt length, and the first that fails decides the response: each of the
  first six lines below assumes the earlier checks passed and gives the whole result, in
  which \<open>fetch\<close> was not called and no stream was made. The next two lines are the two
  places where the gate throws instead of answering: the destructuring of a body that is
  \<open>null\<close>, and the comparison of a length that cannot be converted to a number; there
  too \<open>fetch\<close> was not called. The last line says for every request that does not pass
  the gate that \<open>fetch\<close> is not called and no stream is made. Nothing but the request's
  body is ever read before the gate is passed.
\<close>

theorem C6_gate_short_circuits:
  "(req_origin request \<noteq> Some (ALLOWED_ORIGIN cfg) \<longrightarrow>
      handleRequest rt cfg request =
        \<lparr>outcome = Inr (new_Response (BodyText (ascii ''Forbidden'')) 403 []),
         body_read = False, fetches = [], session = None\<rparr>)
   \<and> (req_origin request = Some (ALLOWED_ORIGIN cfg) \<and> req_method request = ''OPTIONS'' \<longrightarrow>
      handleRequest rt cfg request =
        \<lparr>outcome = Inr (new_Response BodyNull 200
           [(''Access-Control-Allow-Origin'', ALLOWED_ORIGIN cfg),
            (''Access-Control-Allow-Methods'', ''POST, OPTIONS''),
            (''Access-Control-Allow-Headers'', ''Content-Type, Authorization'')]),
         body_read = False, fetches = [], session = None\<rparr>)
   \<and> (req_origin request = Some (ALLOWED_ORIGIN cfg) \<and> req_method request \<noteq> ''OPTIONS'' \<and>
      req_method request \<noteq> ''POST'' \<longrightarrow>
      handleRequest rt cfg request =
        \<lparr>outcome = Inr (new_Response (BodyText (ascii ''Method Not Allowed'')) 405 []),
         body_read = False, fetches = [], session = None\<rparr>)
   \<and> (req_origin request = Some (ALLOWED_ORIGIN cfg) \<and> req_method request = ''POST'' \<and>
      req_json request = None \<longrightarrow>
      handleRequest rt cfg request =
        \<lparr>outcome = Inr (new_Response (BodyText (ascii ''Bad Request: Invalid JSON'')) 400 []),
         body_read = True, fetches = [], session = None\<rparr>)
   \<and> (req_origin request = Some (ALLOWED_ORIGIN cfg) \<and> req_method request = ''POST'' \<and>
      req_json request = Some body \<and> get_prompt body = Inr prompt \<and> \<not> ToBoolean prompt \<longrightarrow>
      handleRequest rt cfg request =
        \<lparr>outcome = Inr (new_Response (BodyText (ascii ''Bad Request: Missing prompt'')) 400 []),
         body_read = True, fetches = [], session = None\<rparr>)
   \<and> (req_origin request = Some (ALLOWED_ORIGIN cfg) \<and> req_method request = ''POST'' \<and>
      req_json request = Some body \<and> get_prompt body = Inr prompt \<and> ToBoolean prompt \<and>
      get_length prompt = Inr len \<and> ToNumber rt len = Inr n \<and>
      js_less (Fin (of_nat (MAX_PROMPT_LENGTH cfg))) n \<and> ToString rt len = Inr actual \<longrightarrow>
      handleRequest rt cfg request =
        \<lparr>outcome = Inr (new_Response
           (BodyText (ascii ''Bad Request: Max prompt length exceeded ('' @ actual @
              ascii ''>'' @ NumberToString rt (Fin (of_nat (MAX_PROMPT_LENGTH cfg))))) 400 []),
         body_read = True, fetches = [], session = None\<rparr>)
   \<and> (req_origin request = Some (ALLOWED_ORIGIN cfg) \<and> req_method request = ''POST'' \<and>
      req_json request = Some body \<and> get_prompt body = Inl e \<longrightarrow>
      handleRequest rt cfg request =
        \<lparr>outcome = Inl e, body_read = True, fetches = [], session = None\<rparr>)
   \<and> (req_origin request = Some (ALLOWED_ORIGIN cfg) \<and> req_method request = ''POST'' \<and>
      req_json request = Some body \<and> get_prompt body = Inr prompt \<and> ToBoolean prompt \<and>
      get_length prompt = Inr len \<and> ToNumber rt len = Inl e \<longrightarrow>
      handleRequest rt cfg request =
        \<lparr>outcome = Inl e, body_read = True, fetches = [], session = None\<rparr>)
   \<and> (\<not> passes_gate rt cfg request \<longrightarrow>
      fetches (handleRequest rt cfg request) = [] \<and>
      session (handleRequest rt cfg request) = None)"
proof (intro conjI impI)
  assume "\<not> passes_gate rt cfg request"
  then show "fetches (handleRequest rt cfg request) = []"
    by (auto simp add: passes_gate_def handleRequest_def
        simp del: ToNumber.simps ToString.simps NumberToString.simps
        split: option.splits sum.splits)
next
  assume "\<not> passes_gate rt cfg request"
  then show "session (handleRequest rt cfg request) = None"
    by (auto simp add: passes_gate_def handleRequest_def
        simp del: ToNumber.simps ToString.simps NumberToString.simps
        split: option.splits sum.splits)
qed (simp_all add: handleRequest_def del: ToString.simps ToNumber.simps NumberToString.simps)

text \<open>
  The theorem at one request for each line.
\<close>

theorem C6_witness:
  "handleRequest (example_platform (FetchRejects TypeError)) (source_config ''key'')
     \<lparr>req_origin = None, req_method = ''GET'', req_json = None\<rparr> =
     \<lparr>outcome = Inr (new_Response (BodyText (ascii ''Forbidden'')) 403 []),
      body_read = False, fetches = [], session = None\<rparr>
   \<and> handleRequest (example_platform (FetchRejects TypeError)) (source_config ''key'')
     \<lparr>req_origin = Some ''https://koomen.dev'', req_method = ''OPTIONS'', req_json = None\<rparr> =
     \<lparr>outcome = Inr (new_Response BodyNull 200
        [(''Access-Control-Allow-Origin'', ''https://koomen.dev''),
         (''Access-Control-Allow-Methods'', ''POST, OPTIONS''),
         (''Access-Control-Allow-Headers'', ''Content-Type, Authorization'')]),
      body_read = False, fetches = [], session = None\<rparr>
   \<and> handleRequest (example_platform (FetchRejects TypeError)) (source_config ''key'')
     \<lparr>req_origin = Some ''https://koomen.dev'', req_method = ''GET'', req_json = None\<rparr> =
     \<lparr>outcome = Inr (new_Response (BodyText (ascii ''Method Not Allowed'')) 405 []),
      body_read = False, fetches = [], session = None\<rparr>
   \<and> handleRequest (example_platform (FetchRejects TypeError)) (source_config ''key'')
     \<lparr>req_origin = Some ''https://koomen.dev'', req_method = ''POST'', req_json = None\<rparr> =
     \<lparr>outcome = Inr (new_Response (BodyText (ascii ''Bad Request: Invalid JSON'')) 400 []),
      body_read = True, fetches = [], session = None\<rparr>
   \<and> handleRequest (example_platform (FetchRejects TypeError)) (source_config ''key'')
     (post_request (prompt_body (JStr []))) =
     \<lparr>outcome = Inr (new_Response (BodyText (ascii ''Bad Request: Missing prompt'')) 400 []),
      body_read = True, fetches = [], session = None\<rparr>
   \<and> handleRequest (example_platform (FetchRejects TypeError))
     ((source_config ''key'')\<lparr>MAX_PROMPT_LENGTH := 3\<rparr>)
     (post_request (prompt_body (JStr (ascii ''hello'')))) =
     \<lparr>outcome = Inr (new_Response
        (BodyText (ascii ''Bad Request: Max prompt length exceeded (5>3'')) 400 []),
      body_read = True, fetches = [], session = None\<rparr>
   \<and> handleRequest (example_platform (FetchRejects TypeError)) (source_config ''key'')
     (post_request JNull) =
     \<lparr>outcome = Inl TypeError, body_read = True, fetches = [], session = None\<rparr>
   \<and> handleRequest (example_platform (FetchRejects TypeError)) (source_config ''key'')
     (post_request (prompt_body unprintable_length)) =
     \<lparr>outcome = Inl TypeError, body_read = True, fetches = [], session = None\<rparr>
   \<and> fetches (handleRequest (example_platform (FetchRejects TypeError)) (source_config ''key'')
        (post_request (prompt_body unprintable_length))) = []
   \<and> session (handleRequest (example_platform (FetchRejects TypeError)) (source_config ''key'')
        (post_request (prompt_body unprintable_length))) = None"
proof -
  let ?rt = "example_platform (FetchRejects TypeError)"
  let ?cfg = "source_config ''key''"
  have safe: "is_safe_integer 5" "is_safe_integer 3"
    by (simp_all add: is_safe_integer_def)
  note C6 = C6_gate_short_circuits
  show ?thesis
    using
      C6 [of "\<lparr>req_origin = None, req_method = ''GET'', req_json = None\<rparr>" ?cfg ?rt]
      C6 [of "\<lparr>req_origin = Some ''https://koomen.dev'', req_method = ''OPTIONS'',
               req_json = None\<rparr>" ?cfg ?rt]
      C6 [of "\<lparr>req_origin = Some ''https://koomen.dev'', req_method = ''GET'',
               req_json = None\<rparr>" ?cfg ?rt]
      C6 [of "\<lparr>req_origin = Some ''https://koomen.dev'', req_method = ''POST'',
               req_json = None\<rparr>" ?cfg ?rt]
      C6 [of "post_request (prompt_body (JStr []))" ?cfg ?rt
             "prompt_body (JStr [])" "JStr []"]
      C6 [of "post_request (prompt_body (JStr (ascii ''hello'')))"
             "?cfg\<lparr>MAX_PROMPT_LENGTH := 3\<rparr>" ?rt
             "prompt_body (JStr (ascii ''hello''))" "JStr (ascii ''hello'')" "JNum (Fin 5)"
             "Fin 5" "ascii ''5''"]
      C6 [of "post_request JNull" ?cfg ?rt JNull _ _ _ _ TypeError]
      C6 [of "post_request (prompt_body unprintable_length)" ?cfg ?rt
             "prompt_body unprintable_length" unprintable_length
             "JObj [(ascii ''toString'', JNum (Fin 0))]" _ _ TypeError]
    by (simp add: source_config_def post_request_def prompt_body_def passes_gate_def
        unprintable_length_def ascii_def digits.simps safe)
qed







section \<open>Properties of the UTF-8 decoder\<close>

text \<open>
  The bytes of a scalar value from U+0080 on, fed to the handler one at a time from a
  decoder with nothing pending: the lead byte and every continuation byte but the last
  emit nothing, the last emits the scalar value and leaves nothing pending.
\<close>

lemma unat_byte: "x < 256 \<Longrightarrow> unat (of_nat x :: byte) = x"
  by (simp add: unat_of_nat)

lemma idle_pending: "new_TextDecoder\<lparr>BOM_seen := b\<rparr> = pending b 0 0 0 0x80 0xBF"
  by (simp add: pending_def new_TextDecoder_def)

lemma add_mod_cancel:
  fixes x :: nat
  assumes "x < m" "k mod m = 0"
  shows "(k + x) mod m = x"
proof -
  have "(k + x) mod m = (k mod m + x) mod m" by (simp add: mod_add_left_eq)
  with assms show ?thesis by simp
qed

lemma lead2:
  assumes "2 \<le> a" "a < 32"
  shows "utf8_handler (pending b 0 0 0 0x80 0xBF) (0xC0 + a) = ([], pending b a 0 1 0x80 0xBF)"
  using assms
  by (simp add: utf8_handler_def utf8_lead_def pending_def add_mod_cancel)

lemma lead3:
  assumes "a < 16"
  shows "utf8_handler (pending b 0 0 0 0x80 0xBF) (0xE0 + a) =
    ([], pending b a 0 2 (if a = 0 then 0xA0 else 0x80) (if a = 13 then 0x9F else 0xBF))"
  using assms
  by (simp add: utf8_handler_def utf8_lead_def pending_def add_mod_cancel)

lemma lead4:
  assumes "a < 5"
  shows "utf8_handler (pending b 0 0 0 0x80 0xBF) (0xF0 + a) =
    ([], pending b a 0 3 (if a = 0 then 0x90 else 0x80) (if a = 4 then 0x8F else 0xBF))"
  using assms
  by (simp add: utf8_handler_def utf8_lead_def pending_def add_mod_cancel)

lemma continuation:
  assumes "x < 64" "lo \<le> 0x80 + x" "0x80 + x \<le> hi" "Suc seen < needed"
  shows "utf8_handler (pending b c seen needed lo hi) (0x80 + x) =
    ([], pending b (c * 64 + x) (Suc seen) needed 0x80 0xBF)"
  using assms
  by (simp add: utf8_handler_def pending_def add_mod_cancel)

lemma final_continuation:
  assumes "x < 64" "lo \<le> 0x80 + x" "0x80 + x \<le> hi" "Suc seen = needed"
  shows "utf8_handler (pending b c seen needed lo hi) (0x80 + x) =
    ([c * 64 + x], pending b 0 0 0 0x80 0xBF)"
  using assms
  by (auto simp add: utf8_handler_def pending_def add_mod_cancel)

lemma reassemble2: "cp div 64 * 64 + cp mod 64 = (cp::nat)"
  by simp

lemma steps2:
  assumes "0x80 \<le> cp" "cp < 0x800"
  shows "map unat (utf8_bytes cp) = [0xC0 + cp div 64, 0x80 + cp mod 64]"
    and "utf8_handler (pending b 0 0 0 0x80 0xBF) (0xC0 + cp div 64) =
           ([], pending b (cp div 64) 0 1 0x80 0xBF)"
    and "utf8_handler (pending b (cp div 64) 0 1 0x80 0xBF) (0x80 + cp mod 64) =
           ([cp], pending b 0 0 0 0x80 0xBF)"
proof -
  have a: "2 \<le> cp div 64" "cp div 64 < 32" using assms by simp_all
  show "map unat (utf8_bytes cp) = [0xC0 + cp div 64, 0x80 + cp mod 64]"
    using assms a by (simp add: utf8_bytes_def unat_byte del: of_nat_add of_nat_numeral)
  show "utf8_handler (pending b 0 0 0 0x80 0xBF) (0xC0 + cp div 64) =
           ([], pending b (cp div 64) 0 1 0x80 0xBF)"
    by (rule lead2 [OF a])
  have "utf8_handler (pending b (cp div 64) 0 1 0x80 0xBF) (0x80 + cp mod 64) =
      ([cp div 64 * 64 + cp mod 64], pending b 0 0 0 0x80 0xBF)"
    by (rule final_continuation) simp_all
  then show "utf8_handler (pending b (cp div 64) 0 1 0x80 0xBF) (0x80 + cp mod 64) =
           ([cp], pending b 0 0 0 0x80 0xBF)"
    by (simp only: reassemble2)
qed

lemma mod64_window:
  fixes n :: nat
  assumes "k mod 64 = 0" "k \<le> n" "n < k + w" "w \<le> 64"
  shows "n mod 64 = n - k" "n mod 64 < w"
proof -
  have "n = k + (n - k)" "n - k < 64" using assms by simp_all
  then show "n mod 64 = n - k"
    using add_mod_cancel [of "n - k" 64 k] assms(1) by simp
  then show "n mod 64 < w" using assms by simp
qed

lemma steps3:
  assumes "0x800 \<le> cp" "cp < 0x10000" "\<not> (0xD800 \<le> cp \<and> cp \<le> 0xDFFF)"
  defines "lo \<equiv> (if cp div 4096 = 0 then 0xA0 else 0x80)"
    and "hi \<equiv> (if cp div 4096 = 13 then 0x9F else 0xBF)"
  shows "map unat (utf8_bytes cp) =
           [0xE0 + cp div 4096, 0x80 + cp div 64 mod 64, 0x80 + cp mod 64]"
    and "utf8_handler (pending b 0 0 0 0x80 0xBF) (0xE0 + cp div 4096) =
           ([], pending b (cp div 4096) 0 2 lo hi)"
    and "utf8_handler (pending b (cp div 4096) 0 2 lo hi) (0x80 + cp div 64 mod 64) =
           ([], pending b (cp div 64) 1 2 0x80 0xBF)"
    and "utf8_handler (pending b (cp div 64) 1 2 0x80 0xBF) (0x80 + cp mod 64) =
           ([cp], pending b 0 0 0 0x80 0xBF)"
proof -
  have a: "cp div 4096 < 16" using assms(2) by simp
  have lo: "lo \<le> 0x80 + cp div 64 mod 64"
  proof (cases "cp div 4096 = 0")
    case True
    then have "cp < 4096" by (simp add: div_eq_0_iff)
    then have "cp div 64 < 64" by simp
    moreover have "32 \<le> cp div 64" using assms(1) by simp
    ultimately show ?thesis using True by (simp add: lo_def)
  next
    case False
    then show ?thesis by (simp add: lo_def)
  qed
  have hi: "0x80 + cp div 64 mod 64 \<le> hi"
  proof (cases "cp div 4096 = 13")
    case True
    then have "53248 \<le> cp" "cp < 57344" by simp_all
    with assms(3) have "cp < 55296" by simp
    then have "cp div 64 < 832 + 32" by simp
    moreover have "832 \<le> cp div 64" using \<open>53248 \<le> cp\<close> by simp
    ultimately have "cp div 64 mod 64 < 32"
      by (intro mod64_window(2) [of 832]) simp_all
    then show ?thesis using True by (simp add: hi_def)
  next
    case False
    then have "hi = 0xBF" by (simp add: hi_def)
    moreover have "cp div 64 mod 64 < 64" by simp
    ultimately show ?thesis by simp
  qed
  show "map unat (utf8_bytes cp) =
           [0xE0 + cp div 4096, 0x80 + cp div 64 mod 64, 0x80 + cp mod 64]"
    using assms(1,2) a by (simp add: utf8_bytes_def unat_byte del: of_nat_add of_nat_numeral)
  show "utf8_handler (pending b 0 0 0 0x80 0xBF) (0xE0 + cp div 4096) =
           ([], pending b (cp div 4096) 0 2 lo hi)"
    unfolding lo_def hi_def by (rule lead3 [OF a])
  have "cp div 4096 = cp div 64 div 64" by (simp add: div_mult2_eq)
  then have eq: "cp div 4096 * 64 + cp div 64 mod 64 = cp div 64" by simp
  have "utf8_handler (pending b (cp div 4096) 0 2 lo hi) (0x80 + cp div 64 mod 64) =
      ([], pending b (cp div 4096 * 64 + cp div 64 mod 64) (Suc 0) 2 0x80 0xBF)"
    by (rule continuation) (simp_all add: lo hi)
  then show "utf8_handler (pending b (cp div 4096) 0 2 lo hi) (0x80 + cp div 64 mod 64) =
           ([], pending b (cp div 64) 1 2 0x80 0xBF)"
    by (simp only: eq One_nat_def)
  have "utf8_handler (pending b (cp div 64) 1 2 0x80 0xBF) (0x80 + cp mod 64) =
      ([cp div 64 * 64 + cp mod 64], pending b 0 0 0 0x80 0xBF)"
    by (rule final_continuation) simp_all
  then show "utf8_handler (pending b (cp div 64) 1 2 0x80 0xBF) (0x80 + cp mod 64) =
           ([cp], pending b 0 0 0 0x80 0xBF)"
    by (simp only: reassemble2)
qed

lemma steps4:
  assumes "0x10000 \<le> cp" "cp \<le> 0x10FFFF"
  defines "lo \<equiv> (if cp div 262144 = 0 then 0x90 else 0x80)"
    and "hi \<equiv> (if cp div 262144 = 4 then 0x8F else 0xBF)"
  shows "map unat (utf8_bytes cp) =
           [0xF0 + cp div 262144, 0x80 + cp div 4096 mod 64, 0x80 + cp div 64 mod 64,
            0x80 + cp mod 64]"
    and "utf8_handler (pending b 0 0 0 0x80 0xBF) (0xF0 + cp div 262144) =
           ([], pending b (cp div 262144) 0 3 lo hi)"
    and "utf8_handler (pending b (cp div 262144) 0 3 lo hi) (0x80 + cp div 4096 mod 64) =
           ([], pending b (cp div 4096) 1 3 0x80 0xBF)"
    and "utf8_handler (pending b (cp div 4096) 1 3 0x80 0xBF) (0x80 + cp div 64 mod 64) =
           ([], pending b (cp div 64) 2 3 0x80 0xBF)"
    and "utf8_handler (pending b (cp div 64) 2 3 0x80 0xBF) (0x80 + cp mod 64) =
           ([cp], pending b 0 0 0 0x80 0xBF)"
proof -
  have a: "cp div 262144 < 5" using assms(2) by simp
  have lo: "lo \<le> 0x80 + cp div 4096 mod 64"
  proof (cases "cp div 262144 = 0")
    case True
    then have "cp < 262144" by (simp add: div_eq_0_iff)
    then have "cp div 4096 < 64" by simp
    moreover have "16 \<le> cp div 4096" using assms(1) by simp
    ultimately show ?thesis using True by (simp add: lo_def)
  next
    case False
    then show ?thesis by (simp add: lo_def)
  qed
  have hi: "0x80 + cp div 4096 mod 64 \<le> hi"
  proof (cases "cp div 262144 = 4")
    case True
    then have "1048576 \<le> cp" by simp
    then have "256 \<le> cp div 4096" by simp
    moreover have "cp div 4096 < 256 + 16" using assms(2) by simp
    ultimately have "cp div 4096 mod 64 < 16"
      by (intro mod64_window(2) [of 256]) simp_all
    then show ?thesis using True by (simp add: hi_def)
  next
    case False
    then have "hi = 0xBF" by (simp add: hi_def)
    moreover have "cp div 4096 mod 64 < 64" by simp
    ultimately show ?thesis by simp
  qed
  show "map unat (utf8_bytes cp) =
           [0xF0 + cp div 262144, 0x80 + cp div 4096 mod 64, 0x80 + cp div 64 mod 64,
            0x80 + cp mod 64]"
    using assms(1,2) a by (simp add: utf8_bytes_def unat_byte del: of_nat_add of_nat_numeral)
  show "utf8_handler (pending b 0 0 0 0x80 0xBF) (0xF0 + cp div 262144) =
           ([], pending b (cp div 262144) 0 3 lo hi)"
    unfolding lo_def hi_def by (rule lead4 [OF a])
  have "cp div 262144 = cp div 4096 div 64" by (simp add: div_mult2_eq)
  then have eq1: "cp div 262144 * 64 + cp div 4096 mod 64 = cp div 4096" by simp
  have "utf8_handler (pending b (cp div 262144) 0 3 lo hi) (0x80 + cp div 4096 mod 64) =
      ([], pending b (cp div 262144 * 64 + cp div 4096 mod 64) (Suc 0) 3 0x80 0xBF)"
    by (rule continuation) (simp_all add: lo hi)
  then show "utf8_handler (pending b (cp div 262144) 0 3 lo hi) (0x80 + cp div 4096 mod 64) =
           ([], pending b (cp div 4096) 1 3 0x80 0xBF)"
    by (simp only: eq1 One_nat_def)
  have "cp div 4096 = cp div 64 div 64" by (simp add: div_mult2_eq)
  then have eq2: "cp div 4096 * 64 + cp div 64 mod 64 = cp div 64" by simp
  have "utf8_handler (pending b (cp div 4096) 1 3 0x80 0xBF) (0x80 + cp div 64 mod 64) =
      ([], pending b (cp div 4096 * 64 + cp div 64 mod 64) (Suc 1) 3 0x80 0xBF)"
    by (rule continuation) simp_all
  moreover have "Suc 1 = 2" by simp
  ultimately show "utf8_handler (pending b (cp div 4096) 1 3 0x80 0xBF) (0x80 + cp div 64 mod 64) =
           ([], pending b (cp div 64) 2 3 0x80 0xBF)"
    by (simp only: eq2)
  have "utf8_handler (pending b (cp div 64) 2 3 0x80 0xBF) (0x80 + cp mod 64) =
      ([cp div 64 * 64 + cp mod 64], pending b 0 0 0 0x80 0xBF)"
    by (rule final_continuation) simp_all
  then show "utf8_handler (pending b (cp div 64) 2 3 0x80 0xBF) (0x80 + cp mod 64) =
           ([cp], pending b 0 0 0 0x80 0xBF)"
    by (simp only: reassemble2)
qed

lemma utf8_run_one: "utf8_handler d x = (out, d') \<Longrightarrow> utf8_run d [x] = (out, d')"
  by simp

lemma utf8_run_step:
  "utf8_handler d x = ([], d') \<Longrightarrow> utf8_run d' xs = r \<Longrightarrow> utf8_run d (x # xs) = r"
  by (cases r) simp

lemma length_utf8_bytes:
  "length (utf8_bytes cp) =
     (if cp < 0x80 then 1 else if cp < 0x800 then 2 else if cp < 0x10000 then 3 else 4)"
  by (simp add: utf8_bytes_def)

lemma run_split:
  assumes "0x80 \<le> cp" "cp \<le> 0x10FFFF" "\<not> (0xD800 \<le> cp \<and> cp \<le> 0xDFFF)"
    and "0 < k" "k < length (utf8_bytes cp)"
  shows "\<exists>d1. utf8_run (pending b 0 0 0 0x80 0xBF) (map unat (take k (utf8_bytes cp))) = ([], d1)
     \<and> utf8_run d1 (map unat (drop k (utf8_bytes cp))) = ([cp], pending b 0 0 0 0x80 0xBF)"
proof -
  let ?bs = "map unat (utf8_bytes cp)"
  have split: "map unat (take k (utf8_bytes cp)) = take k ?bs"
    "map unat (drop k (utf8_bytes cp)) = drop k ?bs"
    by (simp_all add: take_map drop_map)
  consider (two) "cp < 0x800" | (three) "0x800 \<le> cp" "cp < 0x10000" | (four) "0x10000 \<le> cp"
    by linarith
  then show ?thesis
  proof cases
    case two
    note st = steps2 [OF assms(1) two]
    from assms(4,5) two assms(1) have k: "k = 1" by (simp add: length_utf8_bytes)
    have parts: "take k ?bs = [0xC0 + cp div 64]" "drop k ?bs = [0x80 + cp mod 64]"
      by (simp_all add: k st(1))
    show ?thesis
      unfolding split parts
      by (intro exI conjI, rule utf8_run_one [OF st(2)], rule utf8_run_one [OF st(3)])
  next
    case three
    note st = steps3 [OF three assms(3)]
    from assms(4,5) three have "k = 1 \<or> k = 2" by (auto simp add: length_utf8_bytes)
    then show ?thesis
    proof
      assume k: "k = 1"
      have parts: "take k ?bs = [0xE0 + cp div 4096]"
        "drop k ?bs = [0x80 + cp div 64 mod 64, 0x80 + cp mod 64]"
        by (simp_all add: k st(1))
      show ?thesis
        unfolding split parts
        by (intro exI conjI, rule utf8_run_one [OF st(2)],
            rule utf8_run_step [OF st(3) utf8_run_one [OF st(4)]])
    next
      assume k: "k = 2"
      have parts: "take k ?bs = [0xE0 + cp div 4096, 0x80 + cp div 64 mod 64]"
        "drop k ?bs = [0x80 + cp mod 64]"
        by (simp_all add: k st(1))
      show ?thesis
        unfolding split parts
        by (intro exI conjI, rule utf8_run_step [OF st(2) utf8_run_one [OF st(3)]],
            rule utf8_run_one [OF st(4)])
    qed
  next
    case four
    note st = steps4 [OF four assms(2)]
    from assms(4,5) four have "k = 1 \<or> k = 2 \<or> k = 3" by (auto simp add: length_utf8_bytes)
    then consider "k = 1" | "k = 2" | "k = 3" by blast
    then show ?thesis
    proof cases
      case 1
      have parts: "take k ?bs = [0xF0 + cp div 262144]"
        "drop k ?bs = [0x80 + cp div 4096 mod 64, 0x80 + cp div 64 mod 64, 0x80 + cp mod 64]"
        by (simp_all add: 1 st(1))
      show ?thesis
        unfolding split parts
        by (intro exI conjI, rule utf8_run_one [OF st(2)],
            rule utf8_run_step [OF st(3) utf8_run_step [OF st(4) utf8_run_one [OF st(5)]]])
    next
      case 2
      have parts: "take k ?bs = [0xF0 + cp div 262144, 0x80 + cp div 4096 mod 64]"
        "drop k ?bs = [0x80 + cp div 64 mod 64, 0x80 + cp mod 64]"
        by (simp_all add: 2 st(1))
      show ?thesis
        unfolding split parts
        by (intro exI conjI, rule utf8_run_step [OF st(2) utf8_run_one [OF st(3)]],
            rule utf8_run_step [OF st(4) utf8_run_one [OF st(5)]])
    next
      case 3
      have parts: "take k ?bs =
          [0xF0 + cp div 262144, 0x80 + cp div 4096 mod 64, 0x80 + cp div 64 mod 64]"
        "drop k ?bs = [0x80 + cp mod 64]"
        by (simp_all add: 3 st(1))
      show ?thesis
        unfolding split parts
        by (intro exI conjI,
            rule utf8_run_step [OF st(2) utf8_run_step [OF st(3) utf8_run_one [OF st(4)]]],
            rule utf8_run_one [OF st(5)])
    qed
  qed
qed

lemma length_utf16_units: "length (utf16_units cp) = (if cp < 0x10000 then 1 else 2)"
  by (simp add: utf16_units_def)

text \<open>
  The decoder does not look at how its input is cut into chunks: the handler neither
  reads nor writes the BOM flag, so the text of two chunks read one after the other is
  the text of their bytes read as one chunk.
\<close>

lemma utf8_handler_BOM:
  "utf8_handler (d\<lparr>BOM_seen := b\<rparr>) x =
     (fst (utf8_handler d x), (snd (utf8_handler d x))\<lparr>BOM_seen := b\<rparr>)"
  by (simp add: utf8_handler_def utf8_lead_def Let_def)

lemma utf8_run_BOM:
  "utf8_run (d\<lparr>BOM_seen := b\<rparr>) xs =
     (fst (utf8_run d xs), (snd (utf8_run d xs))\<lparr>BOM_seen := b\<rparr>)"
proof (induction xs arbitrary: d)
  case Nil
  then show ?case by simp
next
  case (Cons x xs)
  show ?case
    by (simp add: utf8_handler_BOM Cons.IH case_prod_beta)
qed

lemma utf8_handler_keeps_BOM: "BOM_seen (snd (utf8_handler d x)) = BOM_seen d"
  by (simp add: utf8_handler_def utf8_lead_def Let_def)

lemma utf8_run_keeps_BOM: "BOM_seen (snd (utf8_run d xs)) = BOM_seen d"
  by (induction xs arbitrary: d) (simp_all add: case_prod_beta utf8_handler_keeps_BOM)

lemma utf8_run_append:
  "utf8_run d (xs @ ys) =
     (fst (utf8_run d xs) @ fst (utf8_run (snd (utf8_run d xs)) ys),
      snd (utf8_run (snd (utf8_run d xs)) ys))"
  by (induction xs arbitrary: d) (simp_all add: case_prod_beta)

lemma decode_append:
  "TextDecoder_decode d (xs @ ys) =
     (fst (TextDecoder_decode d xs) @ fst (TextDecoder_decode (snd (TextDecoder_decode d xs)) ys),
      snd (TextDecoder_decode (snd (TextDecoder_decode d xs)) ys))"
proof -
  let ?r1 = "utf8_run d (map unat xs)"
  let ?r2 = "utf8_run (snd ?r1) (map unat ys)"
  have b1: "BOM_seen (snd ?r1) = BOM_seen d" and b2: "BOM_seen (snd ?r2) = BOM_seen d"
    by (simp_all add: utf8_run_keeps_BOM)
  have same: "(snd ?r1)\<lparr>BOM_seen := BOM_seen d\<rparr> = snd ?r1"
    "(snd ?r2)\<lparr>BOM_seen := BOM_seen d\<rparr> = snd ?r2"
    using b1 b2 by simp_all
  show ?thesis
  proof (cases "BOM_seen d")
    case True
    with b1 b2 show ?thesis
      by (simp add: TextDecoder_decode_def utf8_run_append strip_BOM_def case_prod_beta
          del: utf8_run.simps)
  next
    case False
    show ?thesis
    proof (cases "fst ?r1 = []")
      case True
      with False b1 b2 show ?thesis
        by (simp add: TextDecoder_decode_def utf8_run_append strip_BOM_def case_prod_beta
            del: utf8_run.simps)
    next
      case ne: False
      have run2: "utf8_run ((snd ?r1)\<lparr>BOM_seen := True\<rparr>) (map unat ys) =
          (fst ?r2, (snd ?r2)\<lparr>BOM_seen := True\<rparr>)"
        by (rule utf8_run_BOM)
      from ne False b1 b2 show ?thesis
        by (simp add: TextDecoder_decode_def utf8_run_append strip_BOM_def case_prod_beta run2
            del: utf8_run.simps)
    qed
  qed
qed

text \<open>
  So for \<open>decode\<close> in streaming mode: the first part of a split encoding decodes to
  the empty text, and the rest, given to the same decoder, to the character; except that
  a byte order mark that is the first character of the stream is dropped.
\<close>

lemma decode_split:
  assumes "0x80 \<le> cp" "cp \<le> 0x10FFFF" "\<not> (0xD800 \<le> cp \<and> cp \<le> 0xDFFF)"
    and "0 < k" "k < length (utf8_bytes cp)"
  shows "\<exists>d1. TextDecoder_decode (new_TextDecoder\<lparr>BOM_seen := b\<rparr>) (take k (utf8_bytes cp)) = ([], d1)
     \<and> TextDecoder_decode d1 (drop k (utf8_bytes cp)) =
         ((if cp = 0xFEFF \<and> \<not> b then [] else utf16_units cp),
          new_TextDecoder\<lparr>BOM_seen := True\<rparr>)"
proof -
  from run_split [OF assms(1-5), of b] obtain d1 where
    r1: "utf8_run (pending b 0 0 0 0x80 0xBF) (map unat (take k (utf8_bytes cp))) = ([], d1)" and
    r2: "utf8_run d1 (map unat (drop k (utf8_bytes cp))) = ([cp], pending b 0 0 0 0x80 0xBF)"
    by blast
  have "TextDecoder_decode (new_TextDecoder\<lparr>BOM_seen := b\<rparr>) (take k (utf8_bytes cp)) = ([], d1)"
    by (simp add: TextDecoder_decode_def idle_pending r1 strip_BOM_def del: utf8_run.simps)
  moreover have "TextDecoder_decode d1 (drop k (utf8_bytes cp)) =
         ((if cp = 0xFEFF \<and> \<not> b then [] else utf16_units cp),
          new_TextDecoder\<lparr>BOM_seen := True\<rparr>)"
    by (auto simp add: TextDecoder_decode_def r2 strip_BOM_def pending_def new_TextDecoder_def
        simp del: utf8_run.simps)
  ultimately show ?thesis by blast
qed

section \<open>Properties of the relay loop\<close>

lemma push_chunk_fit:
  assumes "stream_state (sink s) = Readable"
    and "totalLength s + length (fst (TextDecoder_decode (textDecoder s) v))
           \<le> MAX_RESPONSE_LENGTH cfg"
  shows "push_chunk cfg s v =
    (s\<lparr>textDecoder := snd (TextDecoder_decode (textDecoder s) v),
       totalLength := totalLength s + length (fst (TextDecoder_decode (textDecoder s) v)),
       sink := (sink s)\<lparr>enqueued := enqueued (sink s) @ [v]\<rparr>,
       reads := reads s + 1\<rparr>, True)"
  using assms
  by (simp add: push_chunk_def controller_enqueue_def Let_def case_prod_beta)

lemma push_chunk_over:
  assumes "stream_state (sink s) = Readable"
    and "MAX_RESPONSE_LENGTH cfg
           < totalLength s + length (fst (TextDecoder_decode (textDecoder s) v))"
  shows "push_chunk cfg s v =
    (s\<lparr>textDecoder := snd (TextDecoder_decode (textDecoder s) v),
       sink := \<lparr>stream_state = Closed,
                enqueued = enqueued (sink s) @
                  [TextEncoder_encode (take (MAX_RESPONSE_LENGTH cfg - totalLength s)
                     (fst (TextDecoder_decode (textDecoder s) v)))]\<rparr>,
       reads := reads s + 1\<rparr>, False)"
  using assms
  by (simp add: push_chunk_def controller_enqueue_def controller_close_def Let_def
      case_prod_beta)

lemma push_all_fit:
  assumes "stream_state (sink s) = Readable"
    and "totalLength s + sum_list (map length (decode_all (textDecoder s) vs))
           \<le> MAX_RESPONSE_LENGTH cfg"
  shows "push cfg s (vs @ rest) e =
    push cfg
      (s\<lparr>textDecoder := decoder_after (textDecoder s) vs,
         totalLength := totalLength s + sum_list (map length (decode_all (textDecoder s) vs)),
         sink := (sink s)\<lparr>enqueued := enqueued (sink s) @ vs\<rparr>,
         reads := reads s + length vs\<rparr>) rest e"
  using assms
proof (induction vs arbitrary: s)
  case Nil
  then show ?case by simp
next
  case (Cons v vs)
  let ?t = "fst (TextDecoder_decode (textDecoder s) v)"
  let ?s' = "s\<lparr>textDecoder := snd (TextDecoder_decode (textDecoder s) v),
       totalLength := totalLength s + length ?t,
       sink := (sink s)\<lparr>enqueued := enqueued (sink s) @ [v]\<rparr>,
       reads := reads s + 1\<rparr>"
  from Cons.prems have fit: "totalLength s + length ?t \<le> MAX_RESPONSE_LENGTH cfg"
    by simp
  have step: "push_chunk cfg s v = (?s', True)"
    by (rule push_chunk_fit [OF Cons.prems(1) fit])
  have "push cfg s ((v # vs) @ rest) e = push cfg ?s' (vs @ rest) e"
    by (simp add: step)
  also have "\<dots> = push cfg
      (?s'\<lparr>textDecoder := decoder_after (textDecoder ?s') vs,
         totalLength := totalLength ?s' + sum_list (map length (decode_all (textDecoder ?s') vs)),
         sink := (sink ?s')\<lparr>enqueued := enqueued (sink ?s') @ vs\<rparr>,
         reads := reads ?s' + length vs\<rparr>) rest e"
    using Cons.prems by (intro Cons.IH) (simp_all add: add.assoc)
  finally show ?case by (simp add: add.assoc)
qed

lemma push_end_done:
  "stream_state (sink s) = Readable \<Longrightarrow>
   push_end s None = s\<lparr>sink := (sink s)\<lparr>stream_state := Closed\<rparr>, reads := reads s + 1\<rparr>"
  by (simp add: push_end_def controller_close_def)

lemma push_end_error:
  "stream_state (sink s) = Readable \<Longrightarrow>
   push_end s (Some e) =
     s\<lparr>sink := (sink s)\<lparr>stream_state := Errored e\<rparr>, reads := reads s + 1\<rparr>"
  by (simp add: push_end_def controller_error_def)

lemma push_end_keeps:
  "totalLength (push_end s e) = totalLength s" "textDecoder (push_end s e) = textDecoder s"
  by (simp_all add: push_end_def Let_def split: option.splits sum.splits)

lemma initial_relay_simps:
  "textDecoder initial_relay = new_TextDecoder" "totalLength initial_relay = 0"
  "sink initial_relay = new_ReadableStream" "reads initial_relay = 0"
  "stream_state new_ReadableStream = Readable" "enqueued new_ReadableStream = []"
  by (simp_all add: initial_relay_def new_ReadableStream_def)

text \<open>
  \<open>push\<close> ends in the last state of its trace, so what holds of every state of the
  trace holds of the state the loop leaves.
\<close>

lemma push_trace_not_Nil: "push_trace cfg s vs e \<noteq> []"
  by (cases vs) (simp_all split: prod.splits bool.splits)

lemma push_trace_last: "last (push_trace cfg s vs e) = push cfg s vs e"
  by (induction vs arbitrary: s)
    (simp_all add: push_trace_not_Nil split: prod.splits bool.splits)

text \<open>
  The definitions a concrete run of the loop unfolds.
\<close>

lemmas relay_eval =
  start_def initial_relay_def new_ReadableStream_def new_TextDecoder_def push_chunk_def
  push_end_def controller_enqueue_def controller_close_def controller_error_def
  TextDecoder_decode_def TextEncoder_encode_def utf8_handler_def utf8_lead_def strip_BOM_def
  utf16_units_def utf8_bytes_def is_high_surrogate_def is_low_surrogate_def bytes_of_def
  source_config_def Let_def

text \<open>
  While the decoded length of the whole upstream stays within the maximum, the stream
  the loop writes to gets every chunk, unchanged and in order, and is closed by the read
  that finds the upstream at its end; if that read rejects instead, the stream is errored
  with the same error, after one read per chunk and that one: no read is repeated.
\<close>

lemma relay_roundtrip:
  assumes "sum_list (map length (decode_all new_TextDecoder vs)) \<le> MAX_RESPONSE_LENGTH cfg"
  shows "start cfg (Some \<lparr>chunks = vs, ending = None\<rparr>) =
     \<lparr>textDecoder = decoder_after new_TextDecoder vs,
      totalLength = sum_list (map length (decode_all new_TextDecoder vs)),
      sink = \<lparr>stream_state = Closed, enqueued = vs\<rparr>,
      reads = length vs + 1\<rparr>"
proof -
  have "push cfg initial_relay (vs @ []) None =
    push cfg
      (initial_relay\<lparr>textDecoder := decoder_after (textDecoder initial_relay) vs,
         totalLength := totalLength initial_relay +
           sum_list (map length (decode_all (textDecoder initial_relay) vs)),
         sink := (sink initial_relay)\<lparr>enqueued := enqueued (sink initial_relay) @ vs\<rparr>,
         reads := reads initial_relay + length vs\<rparr>) [] None"
    using assms by (intro push_all_fit) (simp_all add: initial_relay_simps)
  then show ?thesis
    by (simp add: start_def initial_relay_simps push_end_done)
qed

lemma relay_read_error:
  assumes "sum_list (map length (decode_all new_TextDecoder vs)) \<le> MAX_RESPONSE_LENGTH cfg"
  shows "start cfg (Some \<lparr>chunks = vs, ending = Some e\<rparr>) =
     \<lparr>textDecoder = decoder_after new_TextDecoder vs,
      totalLength = sum_list (map length (decode_all new_TextDecoder vs)),
      sink = \<lparr>stream_state = Errored e, enqueued = vs\<rparr>,
      reads = length vs + 1\<rparr>"
proof -
  have "push cfg initial_relay (vs @ []) (Some e) =
    push cfg
      (initial_relay\<lparr>textDecoder := decoder_after (textDecoder initial_relay) vs,
         totalLength := totalLength initial_relay +
           sum_list (map length (decode_all (textDecoder initial_relay) vs)),
         sink := (sink initial_relay)\<lparr>enqueued := enqueued (sink initial_relay) @ vs\<rparr>,
         reads := reads initial_relay + length vs\<rparr>) [] (Some e)"
    using assms by (intro push_all_fit) (simp_all add: initial_relay_simps)
  then show ?thesis
    by (simp add: start_def initial_relay_simps push_end_error)
qed

text \<open>
  C9. In every run of the loop, from one call of \<open>push\<close> to the next the counter
  \<open>totalLength\<close> never decreases and never exceeds the maximum response length, and
  a call either leaves it as it is or adds the whole decoded length of the chunk it read:
  no chunk is counted in part. (Index \<open>i\<close> of the trace is the state after call
  \<open>i\<close>; the state before it is index \<open>i\<close> of the trace with the initial state in
  front.)
\<close>

lemma push_chunk_counter:
  assumes "totalLength s \<le> MAX_RESPONSE_LENGTH cfg" "push_chunk cfg s v = (s', again)"
  shows "textDecoder s' = snd (TextDecoder_decode (textDecoder s) v)"
    and "totalLength s' = totalLength s \<or>
         totalLength s' = totalLength s + length (fst (TextDecoder_decode (textDecoder s) v))"
    and "totalLength s' \<le> MAX_RESPONSE_LENGTH cfg"
    and "totalLength s \<le> totalLength s'"
  using assms
  by (auto simp add: push_chunk_def Let_def case_prod_beta split: if_splits sum.splits)

lemma push_trace_counter:
  assumes "totalLength s \<le> MAX_RESPONSE_LENGTH cfg" "i < length (push_trace cfg s vs e)"
  shows "totalLength ((s # push_trace cfg s vs e) ! i) \<le> totalLength (push_trace cfg s vs e ! i)
     \<and> totalLength (push_trace cfg s vs e ! i) \<le> MAX_RESPONSE_LENGTH cfg
     \<and> (totalLength (push_trace cfg s vs e ! i) = totalLength ((s # push_trace cfg s vs e) ! i)
        \<or> (i < length vs \<and>
            totalLength (push_trace cfg s vs e ! i) =
              totalLength ((s # push_trace cfg s vs e) ! i) +
              length (decode_all (textDecoder s) vs ! i)))"
  using assms
proof (induction vs arbitrary: s i)
  case Nil
  then show ?case by (simp add: push_end_keeps)
next
  case (Cons v vs)
  obtain s' again where pc: "push_chunk cfg s v = (s', again)" by (cases "push_chunk cfg s v")
  note c = push_chunk_counter [OF Cons.prems(1) pc]
  show ?case
  proof (cases again)
    case False
    with pc Cons.prems(2) have "i = 0" by simp
    with pc False c show ?thesis by auto
  next
    case True
    show ?thesis
    proof (cases i)
      case 0
      with pc True c show ?thesis by auto
    next
      case (Suc j)
      with pc True Cons.prems(2) have j: "j < length (push_trace cfg s' vs e)" by simp
      from Cons.IH [OF c(3) j] pc True Suc c(1) show ?thesis by simp
    qed
  qed
qed

theorem C9_counter_invariant:
  "\<forall>i < length (push_trace cfg initial_relay vs e).
     totalLength ((initial_relay # push_trace cfg initial_relay vs e) ! i)
       \<le> totalLength (push_trace cfg initial_relay vs e ! i)
     \<and> totalLength (push_trace cfg initial_relay vs e ! i) \<le> MAX_RESPONSE_LENGTH cfg
     \<and> (totalLength (push_trace cfg initial_relay vs e ! i) =
          totalLength ((initial_relay # push_trace cfg initial_relay vs e) ! i)
        \<or> (i < length vs \<and>
            totalLength (push_trace cfg initial_relay vs e ! i) =
              totalLength ((initial_relay # push_trace cfg initial_relay vs e) ! i) +
              length (decode_all new_TextDecoder vs ! i)))"
  using push_trace_counter [of initial_relay cfg _ vs e]
  by (simp add: initial_relay_simps)

text \<open>
  The theorem at the chunks \<open>abcde\<close>, \<open>fghij\<close>, \<open>klmno\<close>: with the maximum 10
  the counter goes 0, 5, 10, 10; with the source's maximum 5000 it goes 0, 5, 10, 15, 15.
\<close>

theorem C9_witness:
  "map totalLength
     (initial_relay # push_trace ((source_config ''key'')\<lparr>MAX_RESPONSE_LENGTH := 10\<rparr>)
        initial_relay [bytes_of ''abcde'', bytes_of ''fghij'', bytes_of ''klmno''] None) =
     [0, 5, 10, 10]
   \<and> map totalLength
     (initial_relay # push_trace (source_config ''key'')
        initial_relay [bytes_of ''abcde'', bytes_of ''fghij'', bytes_of ''klmno''] None) =
     [0, 5, 10, 15, 15]"
  using
    C9_counter_invariant [of "(source_config ''key'')\<lparr>MAX_RESPONSE_LENGTH := 10\<rparr>"
      "[bytes_of ''abcde'', bytes_of ''fghij'', bytes_of ''klmno'']" None]
    C9_counter_invariant [of "source_config ''key''"
      "[bytes_of ''abcde'', bytes_of ''fghij'', bytes_of ''klmno'']" None]
  by (simp add: relay_eval)

text \<open>
  C2, as amended. When the decoded length, summed over the chunks in order, first exceeds
  the maximum in the chunk \<open>c\<close>, the stream the loop writes to gets the chunks before
  \<open>c\<close> unchanged, then the encoding of the first (maximum minus length so far) code
  units of the text of \<open>c\<close>, and is closed; \<open>c\<close> is the last chunk read.
\<close>

theorem C2_cap_boundary:
  assumes "sum_list (map length (decode_all new_TextDecoder before)) = n"
    and "n \<le> MAX_RESPONSE_LENGTH cfg"
    and "chunkText = fst (TextDecoder_decode (decoder_after new_TextDecoder before) c)"
    and "MAX_RESPONSE_LENGTH cfg < n + length chunkText"
  shows "start cfg (Some \<lparr>chunks = before @ c # rest, ending = e\<rparr>) =
     \<lparr>textDecoder = snd (TextDecoder_decode (decoder_after new_TextDecoder before) c),
      totalLength = n,
      sink = \<lparr>stream_state = Closed,
               enqueued = before @
                 [TextEncoder_encode (take (MAX_RESPONSE_LENGTH cfg - n) chunkText)]\<rparr>,
      reads = length before + 1\<rparr>"
proof -
  let ?s = "initial_relay\<lparr>textDecoder := decoder_after (textDecoder initial_relay) before,
         totalLength := totalLength initial_relay +
           sum_list (map length (decode_all (textDecoder initial_relay) before)),
         sink := (sink initial_relay)\<lparr>enqueued := enqueued (sink initial_relay) @ before\<rparr>,
         reads := reads initial_relay + length before\<rparr>"
  have "push cfg initial_relay (before @ c # rest) e = push cfg ?s (c # rest) e"
    using assms(1,2) by (intro push_all_fit) (simp_all add: initial_relay_simps)
  moreover have "push_chunk cfg ?s c =
    (?s\<lparr>textDecoder := snd (TextDecoder_decode (textDecoder ?s) c),
       sink := \<lparr>stream_state = Closed,
                enqueued = enqueued (sink ?s) @
                  [TextEncoder_encode (take (MAX_RESPONSE_LENGTH cfg - totalLength ?s)
                     (fst (TextDecoder_decode (textDecoder ?s) c)))]\<rparr>,
       reads := reads ?s + 1\<rparr>, False)"
    using assms by (intro push_chunk_over) (simp_all add: initial_relay_simps)
  ultimately show ?thesis
    using assms(1,3)
    by (simp add: start_def initial_relay_simps)
qed

text \<open>
  The theorem at the maximum 10 and the chunks \<open>abcde\<close>, \<open>fghij\<close>, \<open>klmno\<close>:
  after two chunks the length is 10, which does not exceed 10, so the chunk in which the
  maximum is exceeded is the third; it is read, none of it is written, and the stream
  holds \<open>abcdefghij\<close>. At the maximum 7 the second chunk is cut to \<open>fg\<close> and the
  third is not read.
\<close>

theorem C2_witness:
  "start ((source_config ''key'')\<lparr>MAX_RESPONSE_LENGTH := 10\<rparr>)
     (Some \<lparr>chunks = [bytes_of ''abcde'', bytes_of ''fghij'', bytes_of ''klmno''],
            ending = None\<rparr>) =
     \<lparr>textDecoder = new_TextDecoder\<lparr>BOM_seen := True\<rparr>, totalLength = 10,
      sink = \<lparr>stream_state = Closed,
               enqueued = [bytes_of ''abcde'', bytes_of ''fghij'', []]\<rparr>,
      reads = 3\<rparr>
   \<and> start ((source_config ''key'')\<lparr>MAX_RESPONSE_LENGTH := 7\<rparr>)
     (Some \<lparr>chunks = [bytes_of ''abcde'', bytes_of ''fghij'', bytes_of ''klmno''],
            ending = None\<rparr>) =
     \<lparr>textDecoder = new_TextDecoder\<lparr>BOM_seen := True\<rparr>, totalLength = 5,
      sink = \<lparr>stream_state = Closed,
               enqueued = [bytes_of ''abcde'', bytes_of ''fg'']\<rparr>,
      reads = 2\<rparr>"
  using
    C2_cap_boundary [of "[bytes_of ''abcde'', bytes_of ''fghij'']" 10
      "(source_config ''key'')\<lparr>MAX_RESPONSE_LENGTH := 10\<rparr>" "ascii ''klmno''"
      "bytes_of ''klmno''" "[]" None]
    C2_cap_boundary [of "[bytes_of ''abcde'']" 5
      "(source_config ''key'')\<lparr>MAX_RESPONSE_LENGTH := 7\<rparr>" "ascii ''fghij''"
      "bytes_of ''fghij''" "[bytes_of ''klmno'']" None]
  by (simp add: relay_eval ascii_def)

text \<open>
  The claim as stated fails in its example: with the maximum 10 the loop calls
  \<open>reader.read()\<close> three times, so the third chunk is requested.
\<close>

theorem C2_counterexample:
  "reads (start ((source_config ''key'')\<lparr>MAX_RESPONSE_LENGTH := 10\<rparr>)
     (Some \<lparr>chunks = [bytes_of ''abcde'', bytes_of ''fghij'', bytes_of ''klmno''],
            ending = None\<rparr>)) = 3"
  by (simp add: relay_eval)

text \<open>
  C7, as amended. The loop uses one decoder for all chunks. Let the encoding of a
  character from U+0080 on be split between two chunks that follow each other: the first
  chunk ends with the first part, after bytes that leave the decoder with nothing
  pending, and the second chunk starts with the rest, before any other bytes. Then the
  character adds nothing to the counter when the first chunk is read, and as long as the
  text of both chunks fits under the maximum it is counted once, when the second chunk is
  read, by its number of UTF-16 code units: 1 below U+10000 (an encoding of two or three
  bytes), 2 from U+10000 on (four bytes), and 0 for the byte order mark U+FEFF when it is
  the first character of the stream (the decoder drops it). The read that finds the
  upstream at its end changes neither counter nor decoder: the decoder is not flushed.
\<close>

theorem C7_split_character:
  assumes "0x80 \<le> cp" "cp \<le> 0x10FFFF" "\<not> (0xD800 \<le> cp \<and> cp \<le> 0xDFFF)"
    and "0 < k" "k < length (utf8_bytes cp)"
    and "TextDecoder_decode (textDecoder s) before =
           (text_before, new_TextDecoder\<lparr>BOM_seen := b\<rparr>)"
    and "TextDecoder_decode (new_TextDecoder\<lparr>BOM_seen := True\<rparr>) after = (text_after, d')"
    and "counted = (if cp = 0xFEFF \<and> \<not> b then 0 else if cp < 0x10000 then 1 else 2)"
    and "stream_state (sink s) = Readable"
    and "totalLength s + length text_before + counted + length text_after
           \<le> MAX_RESPONSE_LENGTH cfg"
  shows "map totalLength
      (push_trace cfg s
         [before @ take k (utf8_bytes cp), drop k (utf8_bytes cp) @ after] e) =
     [totalLength s + length text_before,
      totalLength s + length text_before + counted + length text_after,
      totalLength s + length text_before + counted + length text_after]
   \<and> map textDecoder
      (tl (push_trace cfg s
         [before @ take k (utf8_bytes cp), drop k (utf8_bytes cp) @ after] e)) =
     [d', d']"
proof -
  let ?v1 = "before @ take k (utf8_bytes cp)" and ?v2 = "drop k (utf8_bytes cp) @ after"
  from decode_split [OF assms(1-5), of b] obtain d1 where
    d1: "TextDecoder_decode (new_TextDecoder\<lparr>BOM_seen := b\<rparr>) (take k (utf8_bytes cp)) = ([], d1)"
    and d2: "TextDecoder_decode d1 (drop k (utf8_bytes cp)) =
         ((if cp = 0xFEFF \<and> \<not> b then [] else utf16_units cp),
          new_TextDecoder\<lparr>BOM_seen := True\<rparr>)"
    by blast
  have t1: "TextDecoder_decode (textDecoder s) ?v1 = (text_before, d1)"
    by (simp add: decode_append [of "textDecoder s" before] assms(6) d1)
  have len: "length (if cp = 0xFEFF \<and> \<not> b then [] else utf16_units cp) = counted"
    by (simp add: assms(8) length_utf16_units)
  have t2: "TextDecoder_decode d1 ?v2 =
      ((if cp = 0xFEFF \<and> \<not> b then [] else utf16_units cp) @ text_after, d')"
    by (simp only: decode_append [of d1 "drop k (utf8_bytes cp)" after] d2 assms(7)
        fst_conv snd_conv)
  let ?s1 = "s\<lparr>textDecoder := d1, totalLength := totalLength s + length text_before,
       sink := (sink s)\<lparr>enqueued := enqueued (sink s) @ [?v1]\<rparr>, reads := reads s + 1\<rparr>"
  have p1: "push_chunk cfg s ?v1 = (?s1, True)"
    using push_chunk_fit [of s ?v1 cfg] assms(9,10) t1 by simp
  let ?s2 = "?s1\<lparr>textDecoder := d',
       totalLength := totalLength ?s1 + (counted + length text_after),
       sink := (sink ?s1)\<lparr>enqueued := enqueued (sink ?s1) @ [?v2]\<rparr>, reads := reads ?s1 + 1\<rparr>"
  have l2: "length (fst (TextDecoder_decode (textDecoder ?s1) ?v2)) = counted + length text_after"
    using len by (simp add: t2)
  have p2: "push_chunk cfg ?s1 ?v2 = (?s2, True)"
  proof -
    have "push_chunk cfg ?s1 ?v2 =
      (?s1\<lparr>textDecoder := snd (TextDecoder_decode (textDecoder ?s1) ?v2),
         totalLength := totalLength ?s1 + length (fst (TextDecoder_decode (textDecoder ?s1) ?v2)),
         sink := (sink ?s1)\<lparr>enqueued := enqueued (sink ?s1) @ [?v2]\<rparr>,
         reads := reads ?s1 + 1\<rparr>, True)"
      using assms(9,10) by (intro push_chunk_fit) (simp_all only: l2, simp_all)
    moreover have "snd (TextDecoder_decode (textDecoder ?s1) ?v2) = d'"
      by (simp add: t2)
    ultimately show ?thesis by (simp only: l2)
  qed
  have tr: "push_trace cfg s [?v1, ?v2] e = [?s1, ?s2, push_end ?s2 e]"
    by (simp only: push_trace.simps p1 p2 prod.case bool.case)
  show ?thesis
    unfolding tr by (simp add: push_end_keeps)
qed

text \<open>
  The theorem at U+00E9 split 1+1 between \<open>ab\<close> and \<open>cd\<close>, at a byte order mark
  split 2+1 at the start of the stream and followed by \<open>a\<close>, and at U+1F600 split
  1+3.
\<close>

theorem C7_witness:
  "map totalLength
     (push_trace (source_config ''key'') initial_relay
        [[0x61, 0x62, 0xC3], [0xA9, 0x63, 0x64]] None) = [2, 5, 5]
   \<and> map totalLength
     (push_trace (source_config ''key'') initial_relay
        [[0xEF, 0xBB], [0xBF, 0x61]] None) = [0, 1, 1]
   \<and> map totalLength
     (push_trace (source_config ''key'') initial_relay
        [[0xF0], [0x9F, 0x98, 0x80]] None) = [0, 2, 2]"
proof -
  let ?cfg = "source_config ''key''"
  let ?seen = "new_TextDecoder\<lparr>BOM_seen := True\<rparr>"
  have b: "utf8_bytes 0xE9 = [0xC3, 0xA9]" "utf8_bytes 0xFEFF = [0xEF, 0xBB, 0xBF]"
    "utf8_bytes 0x1F600 = [0xF0, 0x9F, 0x98, 0x80]"
    by (simp_all add: utf8_bytes_def)
  have "map totalLength
      (push_trace ?cfg initial_relay
         [[0x61, 0x62] @ take 1 (utf8_bytes 0xE9), drop 1 (utf8_bytes 0xE9) @ [0x63, 0x64]]
         None) =
     [totalLength initial_relay + length [0x61, 0x62 :: code_unit],
      totalLength initial_relay + length [0x61, 0x62 :: code_unit] + 1
        + length [0x63, 0x64 :: code_unit],
      totalLength initial_relay + length [0x61, 0x62 :: code_unit] + 1
        + length [0x63, 0x64 :: code_unit]]
   \<and> map textDecoder
      (tl (push_trace ?cfg initial_relay
         [[0x61, 0x62] @ take 1 (utf8_bytes 0xE9), drop 1 (utf8_bytes 0xE9) @ [0x63, 0x64]]
         None)) = [?seen, ?seen]"
    by (rule C7_split_character [where b = True])
      (simp_all add: b relay_eval)
  moreover have "map totalLength
      (push_trace ?cfg initial_relay
         [[] @ take 2 (utf8_bytes 0xFEFF), drop 2 (utf8_bytes 0xFEFF) @ [0x61]] None) =
     [totalLength initial_relay + length ([] :: jsstring),
      totalLength initial_relay + length ([] :: jsstring) + 0 + length [0x61 :: code_unit],
      totalLength initial_relay + length ([] :: jsstring) + 0 + length [0x61 :: code_unit]]
   \<and> map textDecoder
      (tl (push_trace ?cfg initial_relay
         [[] @ take 2 (utf8_bytes 0xFEFF), drop 2 (utf8_bytes 0xFEFF) @ [0x61]] None)) =
     [?seen, ?seen]"
    by (rule C7_split_character [where b = False])
      (simp_all add: b relay_eval)
  moreover have "map totalLength
      (push_trace ?cfg initial_relay
         [[] @ take 1 (utf8_bytes 0x1F600), drop 1 (utf8_bytes 0x1F600) @ []] None) =
     [totalLength initial_relay + length ([] :: jsstring),
      totalLength initial_relay + length ([] :: jsstring) + 2 + length ([] :: jsstring),
      totalLength initial_relay + length ([] :: jsstring) + 2 + length ([] :: jsstring)]
   \<and> map textDecoder
      (tl (push_trace ?cfg initial_relay
         [[] @ take 1 (utf8_bytes 0x1F600), drop 1 (utf8_bytes 0x1F600) @ []] None)) =
     [?seen\<lparr>BOM_seen := True\<rparr>, ?seen\<lparr>BOM_seen := True\<rparr>]"
    by (rule C7_split_character [where b = False])
      (simp_all add: b relay_eval)
  ultimately show ?thesis by (simp add: b initial_relay_simps)
qed

text \<open>
  The claim as stated fails twice. U+1F600, whose four bytes are split 2+2, is counted
  as two. And when the upstream ends inside a character (here after the lead byte C3),
  the stream is closed while the decoder still waits for a byte: it was never flushed.
\<close>

theorem C7_counterexample:
  "map totalLength
     (push_trace (source_config ''key'') initial_relay [[0xF0, 0x9F], [0x98, 0x80]] None) =
     [0, 2, 2]
   \<and> bytes_needed (textDecoder
       (start (source_config ''key'') (Some \<lparr>chunks = [[0xC3]], ending = None\<rparr>))) = 1"
  by (simp add: relay_eval)

section \<open>The response the client gets for a relayed request\<close>

text \<open>
  C1. The response of a relayed request is built from \<open>readable\<close>, the property of
  that name of a \<open>ReadableStream\<close>, which is \<open>undefined\<close>: the response has no
  body. For an upstream that sends \<open>abcde\<close> and ends, the loop does write \<open>abcde\<close>
  to its stream and closes it, but the client reads nothing, where the claim (and the
  source's comments on lines 81 and 118) say it reads the upstream's bytes.
\<close>

theorem C1_client_receives_nothing:
  "handleRequest
     (example_platform (FetchResponse 200 (Some \<lparr>chunks = [bytes_of ''abcde''], ending = None\<rparr>)))
     (source_config ''key'') (post_request (prompt_body (JStr (ascii ''hello'')))) =
     \<lparr>outcome = Inr (new_Response BodyUndefined 200
        [(''Content-Type'', ''application/json''),
         (''Access-Control-Allow-Origin'', ''https://koomen.dev'')]),
      body_read = True,
      fetches = [openai_call (source_config ''key'') (JStr (ascii ''hello''))],
      session = Some
        \<lparr>textDecoder = new_TextDecoder\<lparr>BOM_seen := True\<rparr>, totalLength = 5,
         sink = \<lparr>stream_state = Closed, enqueued = [bytes_of ''abcde'']\<rparr>, reads = 2\<rparr>\<rparr>
   \<and> client_body (new_Response BodyUndefined 200
        [(''Content-Type'', ''application/json''),
         (''Access-Control-Allow-Origin'', ''https://koomen.dev'')]) = []"
  by (simp add: handleRequest_def example_platform_def post_request_def prompt_body_def
      response_ok_def get_readable_def new_Response_def ascii_def relay_eval)

text \<open>
  C8. For an upstream whose read rejects after the chunk \<open>abcde\<close>, the loop errors
  its stream with that error after two reads, as the claim says; but that stream is not
  the body of the response, so the client sees a complete, empty body and no abort.
\<close>

theorem C8_client_sees_no_abort:
  "handleRequest
     (example_platform (FetchResponse 200
        (Some \<lparr>chunks = [bytes_of ''abcde''], ending = Some (PlatformError 1)\<rparr>)))
     (source_config ''key'') (post_request (prompt_body (JStr (ascii ''hello'')))) =
     \<lparr>outcome = Inr (new_Response BodyUndefined 200
        [(''Content-Type'', ''application/json''),
         (''Access-Control-Allow-Origin'', ''https://koomen.dev'')]),
      body_read = True,
      fetches = [openai_call (source_config ''key'') (JStr (ascii ''hello''))],
      session = Some
        \<lparr>textDecoder = new_TextDecoder\<lparr>BOM_seen := True\<rparr>, totalLength = 5,
         sink = \<lparr>stream_state = Errored (PlatformError 1), enqueued = [bytes_of ''abcde'']\<rparr>,
         reads = 2\<rparr>\<rparr>
   \<and> client_end (new_Response BodyUndefined 200
        [(''Content-Type'', ''application/json''),
         (''Access-Control-Allow-Origin'', ''https://koomen.dev'')]) = Complete
   \<and> client_body (new_Response BodyUndefined 200
        [(''Content-Type'', ''application/json''),
         (''Access-Control-Allow-Origin'', ''https://koomen.dev'')]) = []"
  by (simp add: handleRequest_def example_platform_def post_request_def prompt_body_def
      response_ok_def get_readable_def new_Response_def ascii_def relay_eval)

end
